theory Spec2Isabelle
  imports Main "HOL-Library.Word"
begin

section \<open>The agent core: startup and shutdown of an ordered list of plugins\<close>

text \<open>
  The development embeds \<^verbatim>\<open>package core\<close> (\<^verbatim>\<open>Agent\<close>, \<^verbatim>\<open>Start\<close>, \<^verbatim>\<open>Stop\<close>,
  \<^verbatim>\<open>initPlugins\<close>, \<^verbatim>\<open>handleAfterInit\<close>). Plugins are external code: a plugin
  method is a function on an abstract world \<open>'w\<close> that returns nil or an error, takes
  some time, and leaves a new world. The agent's methods pass the agent (its fields,
  the world, the clock, the log and the record of calls made) explicitly.
\<close>

subsection \<open>Data\<close>

text \<open>\<^verbatim>\<open>time.Duration\<close> is an \<^verbatim>\<open>int64\<close> count of nanoseconds.\<close>

type_synonym Duration = "64 word"

text \<open>\<^verbatim>\<open>defaultTimerValue = -1\<close>: the value of a phase's duration while the phase runs.\<close>

definition defaultTimerValue :: Duration where
  "defaultTimerValue = - 1"

text \<open>
  \<^verbatim>\<open>time.Since(t)\<close> on the monotonic clock: the clock never runs backwards, and the
  difference saturates at the largest \<^verbatim>\<open>Duration\<close> (the standard library's
  \<^verbatim>\<open>Time.Sub\<close>). The clock is a natural number of nanoseconds.
\<close>

definition maxDuration :: nat where
  "maxDuration = 2 ^ 63 - 1"

definition time_Since :: "nat \<Rightarrow> nat \<Rightarrow> Duration" where
  "time_Since t now = word_of_nat (min (now - t) maxDuration)"

text \<open>
  A method of a plugin, run in a world: the error it returns (its \<^verbatim>\<open>Error()\<close> text) or
  \<open>None\<close> for nil, the nanoseconds the call took, and the world it leaves.
\<close>

type_synonym 'w meth = "'w \<Rightarrow> string option \<times> nat \<times> 'w"

text \<open>
  A value of interface type \<^verbatim>\<open>Plugin\<close>, by the methods of its dynamic type: \<^verbatim>\<open>Init\<close>
  always; \<^verbatim>\<open>AfterInit\<close> when the type assertion \<^verbatim>\<open>.(PostInit)\<close> succeeds; \<^verbatim>\<open>Close\<close>
  when the value is an \<^verbatim>\<open>io.Closer\<close>.
\<close>

record 'w Plugin =
  Init :: "'w meth"
  AfterInit :: "'w meth option"
  Close :: "'w meth option"

text \<open>
  \<^verbatim>\<open>NamedPlugin\<close> pairs a \<^verbatim>\<open>PluginName\<close> with a \<^verbatim>\<open>Plugin\<close>; \<^verbatim>\<open>plugin.Init()\<close> on it
  is the \<^verbatim>\<open>Init\<close> of its \<^verbatim>\<open>Plugin\<close>. Its declaration is not among the sources, so
  whether a \<^verbatim>\<open>*NamedPlugin\<close> itself is an \<^verbatim>\<open>io.Closer\<close> is a field here:
  \<open>NamedPlugin_Close\<close> is the \<^verbatim>\<open>Close\<close> method of the wrapper when its type has one.
\<close>

record 'w NamedPlugin =
  PluginName :: string
  Plugin :: "'w Plugin"
  NamedPlugin_Close :: "'w meth option"

text \<open>
  Error values. \<open>Returned\<close> is an error that a plugin method returned, by its text; the
  others are built by the agent: \<^verbatim>\<open>fmt.Errorf(logErrorFmt, name, err, took)\<close>,
  \<^verbatim>\<open>fmt.Errorf(logAfterErrorFmt, name, err, took)\<close>,
  \<^verbatim>\<open>fmt.Errorf(logTimeoutFmt, name)\<close>, \<^verbatim>\<open>errors.New(errMsg)\<close>, and the run-time panic
  of an index out of range.
\<close>

datatype error =
    Returned string
  | Errorf_logErrorFmt string string Duration
  | Errorf_logAfterErrorFmt string string Duration
  | Errorf_logTimeoutFmt string
  | errors_New string
  | Panic_index_out_of_range

text \<open>The entries written to the embedded \<^verbatim>\<open>logging.Logger\<close>: a level and a message.\<close>

datatype level = Debug | Info | Error

datatype message =
    Starting_the_agent
  | Agent_Init_took Duration
  | Agent_AfterInit_took Duration
  | All_plugins_initialized_successfully_took Duration
  | Agent_Init_took_more_than Duration
  | Agent_AfterInit_took_more_than Duration
  | Stopping_agent
  | Stopping_plugin_begin string
  | Stopping_plugin_end string "string option"
  | Agent_stopped
  | logErrorFmt string string Duration
  | logSuccessFmt string Duration
  | logSkippedFmt string
  | logAfterSkippedFmt string
  | logAfterErrorFmt string string Duration
  | logAfterSuccessFmt string Duration
  | logNoAfterInitFmt string
  | Closing string

text \<open>
  The calls the agent makes on its plugins, by call site and index in the list:
  \<^verbatim>\<open>plugin.Init()\<close>, \<^verbatim>\<open>plugin.AfterInit()\<close>, \<^verbatim>\<open>safeclose.Close(agent.plugins[i].Plugin)\<close>
  in \<^verbatim>\<open>Stop\<close>, and \<^verbatim>\<open>safeclose.Close(agent.plugins[i])\<close> in \<^verbatim>\<open>initPlugins\<close>.
\<close>

datatype call =
    Init_call nat
  | AfterInit_call nat
  | Close_Plugin_call nat
  | Close_NamedPlugin_call nat

text \<open>
  The agent. \<open>plugins\<close>, \<open>Logger\<close> and the four fields of \<^verbatim>\<open>startup\<close> are the struct's;
  \<open>world\<close>, \<open>clock\<close> and \<open>calls\<close> are the rest of the state its methods act on: the
  world of the plugins, the monotonic clock in nanoseconds, and the calls made so far.
\<close>

record 'w Agent =
  plugins :: "'w NamedPlugin list"
  Logger :: "(level \<times> message) list"
  MaxStartupTime :: Duration
  initDuration :: Duration
  afterInitDuration :: Duration
  currentlyProcessing :: string
  world :: 'w
  clock :: nat
  calls :: "call list"

text \<open>
  \<^verbatim>\<open>NewAgent\<close>: the durations and \<^verbatim>\<open>currentlyProcessing\<close> start at their zero values
  (the durations at \<open>0\<close>, not at \<^verbatim>\<open>defaultTimerValue\<close>). The logger given has logged
  nothing yet; the last argument is the world the process starts in.
\<close>

definition NewAgent :: "Duration \<Rightarrow> 'w NamedPlugin list \<Rightarrow> 'w \<Rightarrow> 'w Agent" where
  "NewAgent maxStartup ps w =
     \<lparr>plugins = ps, Logger = [], MaxStartupTime = maxStartup, initDuration = 0,
      afterInitDuration = 0, currentlyProcessing = [], world = w, clock = 0, calls = []\<rparr>"

subsection \<open>Calls on plugins\<close>

definition log :: "level \<Rightarrow> message \<Rightarrow> 'w Agent \<Rightarrow> 'w Agent" where
  "log l m a = a\<lparr>Logger := Logger a @ [(l, m)]\<rparr>"

text \<open>A call of a plugin method: the world and the clock move, the call is recorded.\<close>

definition invoke :: "call \<Rightarrow> 'w meth \<Rightarrow> 'w Agent \<Rightarrow> string option \<times> 'w Agent" where
  "invoke c m a =
     (case m (world a) of
        (err, took, w) \<Rightarrow> (err, a\<lparr>world := w, clock := clock a + took, calls := calls a @ [c]\<rparr>))"

text \<open>
  Modelled from the spec: \<^verbatim>\<open>safeclose.Close\<close> of \<^verbatim>\<open>cn-infra/utils/safeclose\<close>, whose
  source is missing. The release capability is optional and its absence is "nothing to
  release", not an error: the \<^verbatim>\<open>Close\<close> method runs when the object has one, and its
  result is returned; otherwise nil is returned and nothing happens. The first argument
  is the call site, recorded in either case.
\<close>

definition safeclose_Close :: "call \<Rightarrow> 'w meth option \<Rightarrow> 'w Agent \<Rightarrow> string option \<times> 'w Agent" where
  "safeclose_Close c obj a =
     (case obj of
        None \<Rightarrow> (None, a\<lparr>calls := calls a @ [c]\<rparr>)
      | Some close \<Rightarrow> invoke c close a)"

subsection \<open>\<^verbatim>\<open>Stop\<close>\<close>

text \<open>
  The loop \<^verbatim>\<open>for i := len(agent.plugins) - 1; i >= 0; i--\<close>; the first argument is
  \<open>i + 1\<close>, the second the list (nothing assigns \<^verbatim>\<open>agent.plugins\<close>).
\<close>

fun Stop_loop :: "nat \<Rightarrow> 'w NamedPlugin list \<Rightarrow> string \<Rightarrow> 'w Agent \<Rightarrow> string \<times> 'w Agent" where
  "Stop_loop 0 ps errMsg a = (errMsg, a)"
| "Stop_loop (Suc i) ps errMsg a =
     (let a1 = log Debug (Stopping_plugin_begin (PluginName (ps ! i))) a in
      case safeclose_Close (Close_Plugin_call i) (Close (Plugin (ps ! i))) a1 of
        (err, a2) \<Rightarrow>
          let errMsg' =
                (case err of
                   Some e \<Rightarrow>
                     (if length errMsg > 0 then errMsg @ ''; '' else errMsg)
                       @ PluginName (ps ! i) @ '': '' @ e
                 | None \<Rightarrow> errMsg);
              a3 = log Debug (Stopping_plugin_end (PluginName (ps ! i)) err) a2
          in Stop_loop i ps errMsg' a3)"

definition Stop :: "'w Agent \<Rightarrow> error option \<times> 'w Agent" where
  "Stop a =
     (let a1 = log Info Stopping_agent a in
      case Stop_loop (length (plugins a1)) (plugins a1) [] a1 of
        (errMsg, a2) \<Rightarrow>
          let a3 = log Debug Agent_stopped a2 in
          if length errMsg > 0 then (Some (errors_New errMsg), a3) else (None, a3))"

subsection \<open>\<^verbatim>\<open>initPlugins\<close>\<close>

text \<open>
  The loop \<^verbatim>\<open>for index, plugin := range agent.plugins\<close>: the first argument is
  \<open>index\<close>, the second the plugins still to visit, then the three local variables
  \<open>initPluginCounter\<close>, \<open>pluginFailed\<close> and \<open>wasError\<close>.
\<close>

fun initPlugins_loop ::
  "nat \<Rightarrow> 'w NamedPlugin list \<Rightarrow> nat \<Rightarrow> bool \<Rightarrow> error option \<Rightarrow> 'w Agent
     \<Rightarrow> (nat \<times> bool \<times> error option) \<times> 'w Agent" where
  "initPlugins_loop index [] initPluginCounter pluginFailed wasError a =
     ((initPluginCounter, pluginFailed, wasError), a)"
| "initPlugins_loop index (plugin # rest) initPluginCounter pluginFailed wasError a =
     (let a1 = a\<lparr>currentlyProcessing := PluginName plugin\<rparr> in
      if pluginFailed then
        initPlugins_loop (Suc index) rest index pluginFailed wasError
          (log Info (logSkippedFmt (PluginName plugin)) a1)
      else
        let pluginStartTime = clock a1 in
        case invoke (Init_call index) (Init (Plugin plugin)) a1 of
          (Some err, a2) \<Rightarrow>
            let pluginErrTime = time_Since pluginStartTime (clock a2) in
            initPlugins_loop (Suc index) rest index True
              (Some (Errorf_logErrorFmt (PluginName plugin) err pluginErrTime))
              (log Error (logErrorFmt (PluginName plugin) err pluginErrTime) a2)
        | (None, a2) \<Rightarrow>
            let pluginSuccTime = time_Since pluginStartTime (clock a2) in
            initPlugins_loop (Suc index) rest index pluginFailed wasError
              (log Info (logSuccessFmt (PluginName plugin) pluginSuccTime) a2))"

text \<open>
  The loop \<^verbatim>\<open>for i := initPluginCounter; i >= 0; i--\<close> that closes
  \<^verbatim>\<open>agent.plugins[i]\<close>, the \<^verbatim>\<open>*NamedPlugin\<close> itself; the first argument is \<open>i + 1\<close>.
  \<^verbatim>\<open>Debugf("Closing %v", agent.plugins[i])\<close> is logged with the plugin's name.
\<close>

fun initPlugins_close_loop ::
  "nat \<Rightarrow> error option \<Rightarrow> 'w Agent \<Rightarrow> error option \<times> 'w Agent" where
  "initPlugins_close_loop 0 wasError a = (wasError, a)"
| "initPlugins_close_loop (Suc i) wasError a =
     (if i < length (plugins a) then
        let a1 = log Debug (Closing (PluginName (plugins a ! i))) a in
        case safeclose_Close (Close_NamedPlugin_call i) (NamedPlugin_Close (plugins a ! i)) a1 of
          (Some err, a2) \<Rightarrow> initPlugins_close_loop i (Some (Returned err)) a2
        | (None, a2) \<Rightarrow> initPlugins_close_loop i wasError a2
      else (Some Panic_index_out_of_range, a))"

definition initPlugins :: "'w Agent \<Rightarrow> error option \<times> 'w Agent" where
  "initPlugins a =
     (let a1 = a\<lparr>initDuration := defaultTimerValue\<rparr>;
          initStartTime = clock a1
      in case initPlugins_loop 0 (plugins a1) 0 False None a1 of
        ((initPluginCounter, pluginFailed, wasError), a2) \<Rightarrow>
          let a3 = a2\<lparr>initDuration := time_Since initStartTime (clock a2)\<rparr> in
          if wasError \<noteq> None then initPlugins_close_loop (Suc initPluginCounter) wasError a3
          else (None, a3))"

subsection \<open>\<^verbatim>\<open>handleAfterInit\<close>\<close>

text \<open>
  The loop \<^verbatim>\<open>for _, plug := range agent.plugins\<close>, with the local variables
  \<open>pluginFailed\<close> and \<open>wasError\<close>; the first argument is the position of \<open>plug\<close> in the
  list, which only the record of calls uses.
\<close>

fun handleAfterInit_loop ::
  "nat \<Rightarrow> 'w NamedPlugin list \<Rightarrow> bool \<Rightarrow> error option \<Rightarrow> 'w Agent
     \<Rightarrow> (bool \<times> error option) \<times> 'w Agent" where
  "handleAfterInit_loop index [] pluginFailed wasError a = ((pluginFailed, wasError), a)"
| "handleAfterInit_loop index (plug # rest) pluginFailed wasError a =
     (let a1 = a\<lparr>currentlyProcessing := PluginName plug\<rparr> in
      if pluginFailed then
        handleAfterInit_loop (Suc index) rest pluginFailed wasError
          (log Info (logAfterSkippedFmt (PluginName plug)) a1)
      else
        case AfterInit (Plugin plug) of
          Some plugin_AfterInit \<Rightarrow>
            (let pluginStartTime = clock a1 in
             case invoke (AfterInit_call index) plugin_AfterInit a1 of
               (Some err, a2) \<Rightarrow>
                 let pluginErrTime = time_Since pluginStartTime (clock a2) in
                 handleAfterInit_loop (Suc index) rest True
                   (Some (Errorf_logAfterErrorFmt (PluginName plug) err pluginErrTime))
                   (log Error (logAfterErrorFmt (PluginName plug) err pluginErrTime) a2)
             | (None, a2) \<Rightarrow>
                 let pluginSuccTime = time_Since pluginStartTime (clock a2) in
                 handleAfterInit_loop (Suc index) rest pluginFailed wasError
                   (log Info (logAfterSuccessFmt (PluginName plug) pluginSuccTime) a2))
        | None \<Rightarrow>
            handleAfterInit_loop (Suc index) rest pluginFailed wasError
              (log Info (logNoAfterInitFmt (PluginName plug)) a1))"

text \<open>On an error \<^verbatim>\<open>agent.Stop()\<close> runs and what it returns is dropped.\<close>

definition handleAfterInit :: "'w Agent \<Rightarrow> error option \<times> 'w Agent" where
  "handleAfterInit a =
     (let a1 = a\<lparr>afterInitDuration := defaultTimerValue\<rparr>;
          afterInitStartTime = clock a1
      in case handleAfterInit_loop 0 (plugins a1) False None a1 of
        ((pluginFailed, wasError), a2) \<Rightarrow>
          let a3 = a2\<lparr>afterInitDuration := time_Since afterInitStartTime (clock a2)\<rparr> in
          if wasError \<noteq> None then (wasError, snd (Stop a3)) else (None, a3))"

subsection \<open>\<^verbatim>\<open>Start\<close>\<close>

text \<open>
  The body of the goroutine that \<^verbatim>\<open>Start\<close> launches: what it sends on \<^verbatim>\<open>errChannel\<close>
  (\<open>Some err\<close>) or the closing of \<^verbatim>\<open>doneChannel\<close> (\<open>None\<close>).
\<close>

definition pipeline :: "'w Agent \<Rightarrow> error option \<times> 'w Agent" where
  "pipeline a =
     (case initPlugins a of
        (Some err, a1) \<Rightarrow> (Some err, a1)
      | (None, a1) \<Rightarrow>
          (case handleAfterInit a1 of
             (Some err, a2) \<Rightarrow> (Some err, a2)
           | (None, a2) \<Rightarrow> (None, a2)))"

text \<open>
  The three cases of the \<^verbatim>\<open>select\<close>. Which one is taken is decided by the scheduler and
  the timer, so it is the first argument: \<open>None\<close> when the goroutine's send or close is
  received, \<open>Some s\<close> when \<^verbatim>\<open>time.After(agent.MaxStartupTime)\<close> fires first, \<open>s\<close> being
  the agent as the caller reads it at that moment, while the goroutine still runs.
  \<^verbatim>\<open>flag.Parse()\<close> does not touch the agent and is left out.
\<close>

definition Start :: "'w Agent option \<Rightarrow> 'w Agent \<Rightarrow> error option \<times> 'w Agent" where
  "Start timer a =
     (let a0 = log Info Starting_the_agent a in
      case timer of
        None \<Rightarrow>
          (case pipeline a0 of
             (Some err, a1) \<Rightarrow>
               (Some err,
                log Info (Agent_AfterInit_took (afterInitDuration a1))
                  (log Info (Agent_Init_took (initDuration a1)) a1))
           | (None, a1) \<Rightarrow>
               (let a2 = log Info (Agent_AfterInit_took (afterInitDuration a1))
                           (log Info (Agent_Init_took (initDuration a1)) a1);
                    duration = initDuration a2 + afterInitDuration a2
                in (None, log Info (All_plugins_initialized_successfully_took duration) a2)))
      | Some s \<Rightarrow>
          (let s1 =
                 (if initDuration s = defaultTimerValue then
                    log Info (Agent_AfterInit_took (afterInitDuration s))
                      (log Info (Agent_Init_took_more_than (MaxStartupTime s)) s)
                  else if afterInitDuration s = defaultTimerValue then
                    log Info (Agent_AfterInit_took_more_than (MaxStartupTime s))
                      (log Info (Agent_Init_took (initDuration s)) s)
                  else s)
           in (Some (Errorf_logTimeoutFmt (currentlyProcessing s1)), s1)))"

subsection \<open>The words of the properties\<close>

text \<open>
  A method's result depends on the world it runs in, so "the first plugin whose \<^verbatim>\<open>Init\<close>
  returns an error" is said of a run: the \<^verbatim>\<open>Init\<close> methods run in list order from a
  world, each in the world the one before left, up to the first error.
  \<open>first_Init_error\<close> is the index of the plugin whose \<^verbatim>\<open>Init\<close> returned that error,
  \<open>Init_error_text\<close> the error's text, \<open>world_after_Init\<close> the world the run leaves.
\<close>

fun first_Init_error :: "'w NamedPlugin list \<Rightarrow> 'w \<Rightarrow> nat option" where
  "first_Init_error [] w = None"
| "first_Init_error (p # ps) w =
     (case Init (Plugin p) w of
        (Some e, t, w') \<Rightarrow> Some 0
      | (None, t, w') \<Rightarrow> map_option Suc (first_Init_error ps w'))"

fun Init_error_text :: "'w NamedPlugin list \<Rightarrow> 'w \<Rightarrow> string" where
  "Init_error_text [] w = []"
| "Init_error_text (p # ps) w =
     (case Init (Plugin p) w of
        (Some e, t, w') \<Rightarrow> e
      | (None, t, w') \<Rightarrow> Init_error_text ps w')"

fun world_after_Init :: "'w NamedPlugin list \<Rightarrow> 'w \<Rightarrow> 'w" where
  "world_after_Init [] w = w"
| "world_after_Init (p # ps) w =
     (case Init (Plugin p) w of
        (Some e, t, w') \<Rightarrow> w'
      | (None, t, w') \<Rightarrow> world_after_Init ps w')"

text \<open>
  The same for \<^verbatim>\<open>AfterInit\<close>, which only the plugins that are a \<^verbatim>\<open>PostInit\<close> have.
\<close>

fun first_AfterInit_error :: "'w NamedPlugin list \<Rightarrow> 'w \<Rightarrow> nat option" where
  "first_AfterInit_error [] w = None"
| "first_AfterInit_error (p # ps) w =
     (case AfterInit (Plugin p) of
        None \<Rightarrow> map_option Suc (first_AfterInit_error ps w)
      | Some m \<Rightarrow>
          (case m w of
             (Some e, t, w') \<Rightarrow> Some 0
           | (None, t, w') \<Rightarrow> map_option Suc (first_AfterInit_error ps w')))"

fun AfterInit_error_text :: "'w NamedPlugin list \<Rightarrow> 'w \<Rightarrow> string" where
  "AfterInit_error_text [] w = []"
| "AfterInit_error_text (p # ps) w =
     (case AfterInit (Plugin p) of
        None \<Rightarrow> AfterInit_error_text ps w
      | Some m \<Rightarrow>
          (case m w of
             (Some e, t, w') \<Rightarrow> e
           | (None, t, w') \<Rightarrow> AfterInit_error_text ps w'))"

fun world_after_AfterInit :: "'w NamedPlugin list \<Rightarrow> 'w \<Rightarrow> 'w" where
  "world_after_AfterInit [] w = w"
| "world_after_AfterInit (p # ps) w =
     (case AfterInit (Plugin p) of
        None \<Rightarrow> world_after_AfterInit ps w
      | Some m \<Rightarrow>
          (case m w of
             (Some e, t, w') \<Rightarrow> w'
           | (None, t, w') \<Rightarrow> world_after_AfterInit ps w'))"

text \<open>
  Releases run from index \<open>n - 1\<close> down to \<open>0\<close>, all of them. \<open>closer\<close> says which
  \<^verbatim>\<open>Close\<close> method a release reaches: that of the \<^verbatim>\<open>Plugin\<close> field, or that of the
  \<^verbatim>\<open>NamedPlugin\<close>. \<open>release_failures\<close> lists the releases that returned an error, in
  the order they ran, each as the plugin's name and the error's text.
\<close>

fun release_failures ::
  "('w NamedPlugin \<Rightarrow> 'w meth option) \<Rightarrow> nat \<Rightarrow> 'w NamedPlugin list \<Rightarrow> 'w
     \<Rightarrow> (string \<times> string) list" where
  "release_failures closer 0 ps w = []"
| "release_failures closer (Suc i) ps w =
     (case closer (ps ! i) of
        None \<Rightarrow> release_failures closer i ps w
      | Some m \<Rightarrow>
          (case m w of
             (Some e, t, w') \<Rightarrow> (PluginName (ps ! i), e) # release_failures closer i ps w'
           | (None, t, w') \<Rightarrow> release_failures closer i ps w'))"

fun world_after_release ::
  "('w NamedPlugin \<Rightarrow> 'w meth option) \<Rightarrow> nat \<Rightarrow> 'w NamedPlugin list \<Rightarrow> 'w \<Rightarrow> 'w" where
  "world_after_release closer 0 ps w = w"
| "world_after_release closer (Suc i) ps w =
     (case closer (ps ! i) of
        None \<Rightarrow> world_after_release closer i ps w
      | Some m \<Rightarrow> world_after_release closer i ps (snd (snd (m w))))"

definition Plugin_Close :: "'w NamedPlugin \<Rightarrow> 'w meth option" where
  "Plugin_Close p = Close (Plugin p)"

text \<open>
  The single message the spec asks of \<^verbatim>\<open>Stop\<close>: every failure as \<open>name: cause\<close>, the
  failures joined by \<open>; \<close>.
\<close>

fun aggregate :: "(string \<times> string) list \<Rightarrow> string" where
  "aggregate [] = []"
| "aggregate [(n, e)] = n @ '': '' @ e"
| "aggregate ((n, e) # f # fs) = n @ '': '' @ e @ ''; '' @ aggregate (f # fs)"

text \<open>
  \<open>Init_count\<close> and \<open>AfterInit_count\<close>: how many plugins such a run visits before it
  stops, the one that failed included.
\<close>

definition Init_count :: "'w NamedPlugin list \<Rightarrow> 'w \<Rightarrow> nat" where
  "Init_count ps w = (case first_Init_error ps w of None \<Rightarrow> length ps | Some k \<Rightarrow> Suc k)"

definition AfterInit_count :: "'w NamedPlugin list \<Rightarrow> 'w \<Rightarrow> nat" where
  "AfterInit_count ps w =
     (case first_AfterInit_error ps w of None \<Rightarrow> length ps | Some k \<Rightarrow> Suc k)"

text \<open>\<open>errMsg\<close> after one more failure, as the body of the loop of \<^verbatim>\<open>Stop\<close> extends it.\<close>

definition add_failure :: "string \<Rightarrow> string \<times> string \<Rightarrow> string" where
  "add_failure errMsg f =
     (if length errMsg > 0 then errMsg @ ''; '' else errMsg) @ fst f @ '': '' @ snd f"

text \<open>
  The index a release call was made at (\<open>None\<close> for the other calls), whether a call
  is a release, and the indices released by a list of calls, in order.
\<close>

fun released_index :: "call \<Rightarrow> nat option" where
  "released_index (Close_Plugin_call i) = Some i"
| "released_index (Close_NamedPlugin_call i) = Some i"
| "released_index (Init_call i) = None"
| "released_index (AfterInit_call i) = None"

definition is_release :: "call \<Rightarrow> bool" where
  "is_release c = (released_index c \<noteq> None)"

definition released :: "call list \<Rightarrow> nat list" where
  "released t = List.map_filter released_index t"

subsection \<open>Plugins to run the agent on\<close>

text \<open>
  The world of these plugins is the list of the resources held. \<open>acquire\<close> and
  \<open>give_back\<close> succeed; \<open>failing\<close> returns an error and changes nothing. Each call
  takes a nanosecond.
\<close>

definition acquire :: "string \<Rightarrow> string list meth" where
  "acquire r w = (None, 1, w @ [r])"

definition give_back :: "string \<Rightarrow> string list meth" where
  "give_back r w = (None, 1, removeAll r w)"

definition failing :: "string \<Rightarrow> string list meth" where
  "failing e w = (Some e, 1, w)"

definition named :: "string \<Rightarrow> string list Plugin \<Rightarrow> string list meth option
    \<Rightarrow> string list NamedPlugin" where
  "named n p c = \<lparr>PluginName = n, Plugin = p, NamedPlugin_Close = c\<rparr>"

text \<open>
  Three plugins whose resources are held; the release of the first and of the third
  fails, that of the second succeeds.
\<close>

definition three_plugins :: "string list NamedPlugin list" where
  "three_plugins =
     [named ''p0'' \<lparr>Init = acquire ''r0'', AfterInit = None, Close = Some (failing ''busy'')\<rparr> None,
      named ''p1'' \<lparr>Init = acquire ''r1'', AfterInit = None, Close = Some (give_back ''r1'')\<rparr> None,
      named ''p2'' \<lparr>Init = acquire ''r2'', AfterInit = None, Close = Some (failing ''stuck'')\<rparr> None]"

text \<open>
  Two plugins that initialize; the first is a \<^verbatim>\<open>PostInit\<close> and takes one more resource
  in \<^verbatim>\<open>AfterInit\<close>.
\<close>

definition two_plugins :: "string list NamedPlugin list" where
  "two_plugins =
     [named ''p0'' \<lparr>Init = acquire ''r0'', AfterInit = Some (acquire ''late0''),
                    Close = Some (give_back ''r0'')\<rparr> None,
      named ''p1'' \<lparr>Init = acquire ''r1'', AfterInit = None, Close = None\<rparr> None]"

text \<open>
  Three plugins, each a \<^verbatim>\<open>PostInit\<close>; the \<^verbatim>\<open>AfterInit\<close> of the second fails, and so
  does its release.
\<close>

definition late_failure :: "string list NamedPlugin list" where
  "late_failure =
     [named ''p0'' \<lparr>Init = acquire ''r0'', AfterInit = Some (acquire ''late0''),
                    Close = Some (give_back ''r0'')\<rparr> None,
      named ''p1'' \<lparr>Init = acquire ''r1'', AfterInit = Some (failing ''late''),
                    Close = Some (failing ''busy'')\<rparr> None,
      named ''p2'' \<lparr>Init = acquire ''r2'', AfterInit = Some (acquire ''late2''),
                    Close = Some (give_back ''r2'')\<rparr> None]"

text \<open>
  Two plugins, the \<^verbatim>\<open>NamedPlugin\<close> an \<^verbatim>\<open>io.Closer\<close>: the \<^verbatim>\<open>Init\<close> of the first fails
  and so does its release; the second is never initialized.
\<close>

definition early_failure :: "string list NamedPlugin list" where
  "early_failure =
     [named ''p0'' \<lparr>Init = failing ''boom'', AfterInit = None,
                    Close = Some (failing ''not open'')\<rparr> (Some (failing ''not open'')),
      named ''p1'' \<lparr>Init = acquire ''r1'', AfterInit = None,
                    Close = Some (give_back ''r1'')\<rparr> (Some (give_back ''r1''))]"

text \<open>
  Three plugins, the \<^verbatim>\<open>NamedPlugin\<close> an \<^verbatim>\<open>io.Closer\<close>: the \<^verbatim>\<open>Init\<close> of the second
  fails, and every release succeeds.
\<close>

definition middle_failure :: "string list NamedPlugin list" where
  "middle_failure =
     [named ''p0'' \<lparr>Init = acquire ''r0'', AfterInit = None,
                    Close = Some (give_back ''r0'')\<rparr> (Some (give_back ''r0'')),
      named ''p1'' \<lparr>Init = failing ''boom'', AfterInit = None,
                    Close = Some (give_back ''r1'')\<rparr> (Some (give_back ''r1'')),
      named ''p2'' \<lparr>Init = acquire ''r2'', AfterInit = None,
                    Close = Some (give_back ''r2'')\<rparr> (Some (give_back ''r2''))]"

text \<open>
  Two plugins, the \<^verbatim>\<open>NamedPlugin\<close> an \<^verbatim>\<open>io.Closer\<close>: the \<^verbatim>\<open>Init\<close> of the second fails,
  and both releases fail.
\<close>

definition rollback_failure :: "string list NamedPlugin list" where
  "rollback_failure =
     [named ''p0'' \<lparr>Init = acquire ''r0'', AfterInit = None,
                    Close = Some (failing ''busy'')\<rparr> (Some (failing ''busy'')),
      named ''p1'' \<lparr>Init = failing ''boom'', AfterInit = None,
                    Close = Some (failing ''not open'')\<rparr> (Some (failing ''not open''))]"

text \<open>A release that fails when the resource is not held any more.\<close>

definition give_back_once :: "string \<Rightarrow> string list meth" where
  "give_back_once r w =
     (if r \<in> set w then (None, 1, removeAll r w) else (Some ''released twice'', 1, w))"

text \<open>One plugin whose resource can be given back once.\<close>

definition one_plugin :: "string list NamedPlugin list" where
  "one_plugin =
     [named ''p0'' \<lparr>Init = acquire ''r0'', AfterInit = None,
                    Close = Some (give_back_once ''r0'')\<rparr> None]"


section \<open>Properties\<close>

subsection \<open>What each call and each loop leaves\<close>

lemma log_fields [simp]:
  "plugins (log l m a) = plugins a"
  "world (log l m a) = world a"
  "clock (log l m a) = clock a"
  "calls (log l m a) = calls a"
  "initDuration (log l m a) = initDuration a"
  "afterInitDuration (log l m a) = afterInitDuration a"
  "MaxStartupTime (log l m a) = MaxStartupTime a"
  "currentlyProcessing (log l m a) = currentlyProcessing a"
  "Logger (log l m a) = Logger a @ [(l, m)]"
  by (simp_all add: log_def)

lemma invoke_fields [simp]:
  "fst (invoke c m a) = fst (m (world a))"
  "plugins (snd (invoke c m a)) = plugins a"
  "world (snd (invoke c m a)) = snd (snd (m (world a)))"
  "calls (snd (invoke c m a)) = calls a @ [c]"
  "initDuration (snd (invoke c m a)) = initDuration a"
  "afterInitDuration (snd (invoke c m a)) = afterInitDuration a"
  by (simp_all add: invoke_def split: prod.splits)

lemma safeclose_Close_fields [simp]:
  "fst (safeclose_Close c obj a) = (case obj of None \<Rightarrow> None | Some m \<Rightarrow> fst (m (world a)))"
  "plugins (snd (safeclose_Close c obj a)) = plugins a"
  "world (snd (safeclose_Close c obj a)) = (case obj of None \<Rightarrow> world a | Some m \<Rightarrow> snd (snd (m (world a))))"
  "calls (snd (safeclose_Close c obj a)) = calls a @ [c]"
  "initDuration (snd (safeclose_Close c obj a)) = initDuration a"
  "afterInitDuration (snd (safeclose_Close c obj a)) = afterInitDuration a"
  by (simp_all add: safeclose_Close_def split: option.splits)

lemma Stop_loop_plugins [simp]: "plugins (snd (Stop_loop i ps e a)) = plugins a"
  by (induction i arbitrary: e a) (simp_all add: Let_def case_prod_beta)

lemma Stop_loop_initDuration [simp]: "initDuration (snd (Stop_loop i ps e a)) = initDuration a"
  by (induction i arbitrary: e a) (simp_all add: Let_def case_prod_beta)

lemma Stop_loop_afterInitDuration [simp]: "afterInitDuration (snd (Stop_loop i ps e a)) = afterInitDuration a"
  by (induction i arbitrary: e a) (simp_all add: Let_def case_prod_beta)

lemma Stop_loop_calls: "calls (snd (Stop_loop i ps e a)) = calls a @ map Close_Plugin_call (rev [0..<i])"
  by (induction i arbitrary: e a) (simp_all add: Let_def case_prod_beta)

lemma Stop_loop_world: "world (snd (Stop_loop i ps e a)) = world_after_release Plugin_Close i ps (world a)"
  by (induction i arbitrary: e a) (simp_all add: Let_def case_prod_beta Plugin_Close_def split: option.splits)

lemma Stop_loop_errMsg: "fst (Stop_loop i ps e a) = foldl add_failure e (release_failures Plugin_Close i ps (world a))"
  by (induction i arbitrary: e a) (simp_all add: Let_def case_prod_beta Plugin_Close_def add_failure_def split: option.splits)

lemma aggregate_Cons: "aggregate (f # fs) = fst f @ '': '' @ snd f @ (if fs = [] then [] else ''; '' @ aggregate fs)"
  by (cases f; cases fs) simp_all

lemma foldl_add_failure: "foldl add_failure e fs = (if fs = [] then e else if e = [] then aggregate fs else e @ ''; '' @ aggregate fs)"
  by (induction fs arbitrary: e) (simp_all add: add_failure_def aggregate_Cons)

lemma Init_count_Cons:
  "Init_count (p # ps) w =
     (case fst (Init (Plugin p) w) of Some e \<Rightarrow> 1 | None \<Rightarrow> Suc (Init_count ps (snd (snd (Init (Plugin p) w)))))"
  by (simp add: Init_count_def split: prod.splits option.splits)

lemma initPlugins_loop_plugins [simp]:
  "plugins (snd (initPlugins_loop index rest c failed we a)) = plugins a"
  by (induction rest arbitrary: index c failed we a)
     (simp_all add: Let_def case_prod_beta split: option.splits)

lemma initPlugins_loop_afterInitDuration [simp]:
  "afterInitDuration (snd (initPlugins_loop index rest c failed we a)) = afterInitDuration a"
  by (induction rest arbitrary: index c failed we a)
     (simp_all add: Let_def case_prod_beta split: option.splits)

lemma initPlugins_loop_failed_calls:
  "calls (snd (initPlugins_loop index rest c True we a)) = calls a"
  by (induction rest arbitrary: index c we a) (simp_all add: Let_def)

lemma initPlugins_loop_failed_world:
  "world (snd (initPlugins_loop index rest c True we a)) = world a"
  by (induction rest arbitrary: index c we a) (simp_all add: Let_def)

lemma initPlugins_loop_failed_result:
  "fst (initPlugins_loop index rest c True we a) =
     (if rest = [] then c else index + length rest - 1, True, we)"
  by (induction rest arbitrary: index c we a) (auto simp add: Let_def)

lemma initPlugins_loop_calls:
  "calls (snd (initPlugins_loop index rest c False we a)) =
     calls a @ map Init_call [index..<index + Init_count rest (world a)]"
proof (induction rest arbitrary: index c we a)
  case Nil
  then show ?case by (simp add: Init_count_def)
next
  case (Cons p rest)
  show ?case
    by (simp add: Let_def case_prod_beta Init_count_Cons Cons.IH initPlugins_loop_failed_calls
        upt_conv_Cons split: option.splits)
qed

lemma initPlugins_loop_world:
  "world (snd (initPlugins_loop index rest c False we a)) = world_after_Init rest (world a)"
proof (induction rest arbitrary: index c we a)
  case Nil
  then show ?case by simp
next
  case (Cons p rest)
  show ?case
    by (simp add: Let_def case_prod_beta Cons.IH initPlugins_loop_failed_world
        split: option.splits prod.splits)
qed

lemma initPlugins_loop_counter:
  "fst (fst (initPlugins_loop index rest c failed we a)) =
     (if rest = [] then c else index + length rest - 1)"
  by (induction rest arbitrary: index c failed we a)
     (auto simp add: Let_def case_prod_beta split: option.splits)

lemma initPlugins_loop_no_error:
  "first_Init_error rest (world a) = None \<Longrightarrow>
     snd (fst (initPlugins_loop index rest c False we a)) = (False, we)"
proof (induction rest arbitrary: index c a)
  case Nil
  then show ?case by simp
next
  case (Cons p rest)
  from Cons.prems show ?case
    by (simp add: Let_def case_prod_beta Cons.IH split: option.splits prod.splits)
qed

lemma initPlugins_loop_error:
  "first_Init_error rest (world a) = Some k \<Longrightarrow>
     \<exists>d. snd (fst (initPlugins_loop index rest c False we a)) =
       (True, Some (Errorf_logErrorFmt (PluginName (rest ! k)) (Init_error_text rest (world a)) d))"
proof (induction rest arbitrary: index c a k)
  case Nil
  then show ?case by simp
next
  case (Cons p rest)
  show ?case
  proof (cases "fst (Init (Plugin p) (world a))")
    case None
    with Cons.prems obtain k' where k': "k = Suc k'"
      "first_Init_error rest (snd (snd (Init (Plugin p) (world a)))) = Some k'"
      by (auto split: prod.splits)
    define a1 where "a1 = snd (invoke (Init_call index) (Init (Plugin p)) (a\<lparr>currentlyProcessing := PluginName p\<rparr>))"
    define a2 where "a2 = log Info (logSuccessFmt (PluginName p) (time_Since (clock a) (clock a1))) a1"
    have w: "world a2 = snd (snd (Init (Plugin p) (world a)))"
      by (simp add: a2_def a1_def)
    have step: "initPlugins_loop index (p # rest) c False we a =
        initPlugins_loop (Suc index) rest index False we a2"
      using None by (simp add: Let_def case_prod_beta a2_def a1_def)
    from Cons.IH [of a2 k' "Suc index" index] k' w None show ?thesis
      unfolding step by (simp add: case_prod_beta)
  next
    case (Some e)
    with Cons.prems have "k = 0" by (auto split: prod.splits)
    with Some show ?thesis
      by (simp add: Let_def case_prod_beta initPlugins_loop_failed_result split: prod.splits)
  qed
qed

subsection \<open>\<^verbatim>\<open>Stop\<close>\<close>

lemma Stop_plugins [simp]: "plugins (snd (Stop a)) = plugins a"
  by (simp add: Stop_def Let_def case_prod_beta)

lemma Stop_initDuration [simp]: "initDuration (snd (Stop a)) = initDuration a"
  by (simp add: Stop_def Let_def case_prod_beta)

lemma Stop_afterInitDuration [simp]: "afterInitDuration (snd (Stop a)) = afterInitDuration a"
  by (simp add: Stop_def Let_def case_prod_beta)

lemma Stop_calls:
  "calls (snd (Stop a)) = calls a @ map Close_Plugin_call (rev [0..<length (plugins a)])"
  by (simp add: Stop_def Let_def case_prod_beta Stop_loop_calls)

lemma Stop_world:
  "world (snd (Stop a)) =
     world_after_release Plugin_Close (length (plugins a)) (plugins a) (world a)"
  by (simp add: Stop_def Let_def case_prod_beta Stop_loop_world)

lemma aggregate_empty: "aggregate fs = [] \<longleftrightarrow> fs = []"
  by (cases fs) (simp_all add: aggregate_Cons)

lemma Stop_result:
  "fst (Stop a) =
     (let fs = release_failures Plugin_Close (length (plugins a)) (plugins a) (world a)
      in if fs = [] then None else Some (errors_New (aggregate fs)))"
  by (simp add: Stop_def Let_def case_prod_beta Stop_loop_errMsg foldl_add_failure
      aggregate_empty)

text \<open>
  C4. \<^verbatim>\<open>Stop\<close> applies the release to every plugin, from the last index down to
  \<open>0\<close>, whatever the releases before returned: the calls it adds are the releases of
  the indices \<open>N - 1, \<dots>, 0\<close> and the world it leaves is the one after all of them. What
  it returns is nil when no release failed, and otherwise one error whose message lists
  every failure, as the plugin's name and the cause, joined by \<open>; \<close>; so it is nil if and
  only if every release succeeded. On an empty list it returns nil.
\<close>

theorem Stop_releases_all_and_aggregates:
  "calls (snd (Stop a)) = calls a @ map Close_Plugin_call (rev [0..<length (plugins a)])
   \<and> world (snd (Stop a)) =
       world_after_release Plugin_Close (length (plugins a)) (plugins a) (world a)
   \<and> fst (Stop a) =
       (let fs = release_failures Plugin_Close (length (plugins a)) (plugins a) (world a)
        in if fs = [] then None else Some (errors_New (aggregate fs)))
   \<and> (fst (Stop a) = None
        \<longleftrightarrow> release_failures Plugin_Close (length (plugins a)) (plugins a) (world a) = [])
   \<and> fst (Stop (a\<lparr>plugins := []\<rparr>)) = None"
  by (simp add: Stop_calls Stop_world Stop_result Let_def)

text \<open>
  On the three plugins: all three releases are made, the second gives its resource
  back, and the error names the third and the first plugin with their causes.
\<close>

theorem Stop_releases_all_and_aggregates_witness:
  "calls (snd (Stop (NewAgent 5 three_plugins [''r0'', ''r1'', ''r2''])))
     = [Close_Plugin_call 2, Close_Plugin_call 1, Close_Plugin_call 0]
   \<and> world (snd (Stop (NewAgent 5 three_plugins [''r0'', ''r1'', ''r2'']))) = [''r0'', ''r2'']
   \<and> fst (Stop (NewAgent 5 three_plugins [''r0'', ''r1'', ''r2'']))
     = Some (errors_New ''p2: stuck; p0: busy'')"
  using Stop_releases_all_and_aggregates [of "NewAgent 5 three_plugins [''r0'', ''r1'', ''r2'']"]
  by (simp add: NewAgent_def three_plugins_def named_def Plugin_Close_def failing_def
      give_back_def numeral_3_eq_3 upt_rec)

subsection \<open>\<^verbatim>\<open>initPlugins\<close>\<close>

lemma time_Since_not_default [simp]: "time_Since t now \<noteq> defaultTimerValue"
proof
  assume eq: "time_Since t now = defaultTimerValue"
  have small: "min (now - t) maxDuration < 2 ^ 63"
    by (simp add: maxDuration_def min_def)
  then have "min (now - t) maxDuration mod 2 ^ 64 = min (now - t) maxDuration"
    by simp
  then have "unat (time_Since t now) = min (now - t) maxDuration"
    by (simp add: time_Since_def unat_of_nat)
  moreover have "unat defaultTimerValue = 2 ^ 64 - 1"
    by (simp add: defaultTimerValue_def unsigned_minus_1_eq_mask mask_eq_exp_minus_1)
  ultimately have "min (now - t) maxDuration = 2 ^ 64 - 1"
    using eq by simp
  with small show False by simp
qed

lemma close_loop_plugins [simp]:
  "plugins (snd (initPlugins_close_loop i we a)) = plugins a"
  by (induction i arbitrary: we a) (simp_all add: Let_def case_prod_beta split: option.splits)

lemma close_loop_initDuration [simp]:
  "initDuration (snd (initPlugins_close_loop i we a)) = initDuration a"
  by (induction i arbitrary: we a) (simp_all add: Let_def case_prod_beta split: option.splits)

lemma close_loop_afterInitDuration [simp]:
  "afterInitDuration (snd (initPlugins_close_loop i we a)) = afterInitDuration a"
  by (induction i arbitrary: we a) (simp_all add: Let_def case_prod_beta split: option.splits)

lemma close_loop_calls:
  "i \<le> length (plugins a) \<Longrightarrow>
     calls (snd (initPlugins_close_loop i we a)) = calls a @ map Close_NamedPlugin_call (rev [0..<i])"
  by (induction i arbitrary: we a) (simp_all add: Let_def case_prod_beta split: option.splits)

lemma close_loop_world:
  "i \<le> length (plugins a) \<Longrightarrow>
     world (snd (initPlugins_close_loop i we a)) =
       world_after_release NamedPlugin_Close i (plugins a) (world a)"
  by (induction i arbitrary: we a) (simp_all add: Let_def case_prod_beta split: option.splits)

lemma close_loop_result:
  "i \<le> length (plugins a) \<Longrightarrow>
     fst (initPlugins_close_loop i we a) =
       (case release_failures NamedPlugin_Close i (plugins a) (world a) of
          [] \<Rightarrow> we
        | f # fs \<Rightarrow> Some (Returned (snd (last (f # fs)))))"
proof (induction i arbitrary: we a)
  case 0
  then show ?case by simp
next
  case (Suc i)
  then show ?case
    by (simp add: Let_def case_prod_beta split: option.splits list.splits prod.splits)
qed

lemma initPlugins_plugins [simp]: "plugins (snd (initPlugins a)) = plugins a"
  by (simp add: initPlugins_def Let_def case_prod_beta del: initPlugins_close_loop.simps)

lemma initPlugins_afterInitDuration [simp]:
  "afterInitDuration (snd (initPlugins a)) = afterInitDuration a"
  by (simp add: initPlugins_def Let_def case_prod_beta del: initPlugins_close_loop.simps)

lemma initPlugins_initDuration [simp]:
  "initDuration (snd (initPlugins a)) \<noteq> defaultTimerValue"
  by (simp add: initPlugins_def Let_def case_prod_beta del: initPlugins_close_loop.simps)

lemma first_Init_error_less: "first_Init_error ps w = Some k \<Longrightarrow> k < length ps"
  by (induction ps arbitrary: w k) (auto split: prod.splits option.splits)

lemma initPlugins_success:
  assumes "first_Init_error (plugins a) (world a) = None"
  shows "fst (initPlugins a) = None"
    and "calls (snd (initPlugins a)) = calls a @ map Init_call [0..<length (plugins a)]"
    and "world (snd (initPlugins a)) = world_after_Init (plugins a) (world a)"
proof -
  let ?a1 = "a\<lparr>initDuration := defaultTimerValue\<rparr>"
  have r: "snd (fst (initPlugins_loop 0 (plugins a) 0 False None ?a1)) = (False, None)"
    using assms by (simp add: initPlugins_loop_no_error)
  then show "fst (initPlugins a) = None"
    by (simp add: initPlugins_def Let_def case_prod_beta del: initPlugins_close_loop.simps)
  from r show "calls (snd (initPlugins a)) = calls a @ map Init_call [0..<length (plugins a)]"
    using assms
    by (simp add: initPlugins_def Let_def case_prod_beta initPlugins_loop_calls Init_count_def)
  from r show "world (snd (initPlugins a)) = world_after_Init (plugins a) (world a)"
    by (simp add: initPlugins_def Let_def case_prod_beta initPlugins_loop_world)
qed

lemma initPlugins_failure:
  assumes "first_Init_error (plugins a) (world a) = Some k"
  shows "calls (snd (initPlugins a)) =
           calls a @ map Init_call [0..<Suc k]
             @ map Close_NamedPlugin_call (rev [0..<length (plugins a)])"
    and "world (snd (initPlugins a)) =
           world_after_release NamedPlugin_Close (length (plugins a)) (plugins a)
             (world_after_Init (plugins a) (world a))"
    and "\<exists>d. fst (initPlugins a) =
           (case release_failures NamedPlugin_Close (length (plugins a)) (plugins a)
                   (world_after_Init (plugins a) (world a)) of
              [] \<Rightarrow> Some (Errorf_logErrorFmt (PluginName (plugins a ! k))
                             (Init_error_text (plugins a) (world a)) d)
            | f # fs \<Rightarrow> Some (Returned (snd (last (f # fs)))))"
proof -
  let ?a1 = "a\<lparr>initDuration := defaultTimerValue\<rparr>"
  let ?l = "initPlugins_loop 0 (plugins a) 0 False None ?a1"
  let ?a3 = "(snd ?l)\<lparr>initDuration := time_Since (clock a) (clock (snd ?l))\<rparr>"
  from assms have ne: "plugins a \<noteq> []" by auto
  from initPlugins_loop_error [of "plugins a" ?a1 k 0 0 None] assms
  obtain d where r: "snd (fst ?l) =
      (True, Some (Errorf_logErrorFmt (PluginName (plugins a ! k))
         (Init_error_text (plugins a) (world a)) d))"
    by auto
  have c: "fst (fst ?l) = length (plugins a) - 1"
    using ne by (simp add: initPlugins_loop_counter)
  have unfold: "initPlugins a =
      initPlugins_close_loop (length (plugins a))
        (Some (Errorf_logErrorFmt (PluginName (plugins a ! k))
           (Init_error_text (plugins a) (world a)) d)) ?a3"
    using r c ne by (simp add: initPlugins_def Let_def case_prod_beta del: initPlugins_close_loop.simps)
  have len: "length (plugins a) \<le> length (plugins ?a3)" by simp
  show "calls (snd (initPlugins a)) =
           calls a @ map Init_call [0..<Suc k]
             @ map Close_NamedPlugin_call (rev [0..<length (plugins a)])"
    unfolding unfold using assms
    by (simp add: close_loop_calls [OF len] initPlugins_loop_calls Init_count_def)
  show "world (snd (initPlugins a)) =
           world_after_release NamedPlugin_Close (length (plugins a)) (plugins a)
             (world_after_Init (plugins a) (world a))"
    unfolding unfold
    by (simp add: close_loop_world [OF len] initPlugins_loop_world)
  have "fst (initPlugins a) =
           (case release_failures NamedPlugin_Close (length (plugins a)) (plugins a)
                   (world_after_Init (plugins a) (world a)) of
              [] \<Rightarrow> Some (Errorf_logErrorFmt (PluginName (plugins a ! k))
                             (Init_error_text (plugins a) (world a)) d)
            | f # fs \<Rightarrow> Some (Returned (snd (last (f # fs)))))"
    unfolding unfold
    by (simp add: close_loop_result [OF len] initPlugins_loop_world)
  then show "\<exists>d. fst (initPlugins a) =
           (case release_failures NamedPlugin_Close (length (plugins a)) (plugins a)
                   (world_after_Init (plugins a) (world a)) of
              [] \<Rightarrow> Some (Errorf_logErrorFmt (PluginName (plugins a ! k))
                             (Init_error_text (plugins a) (world a)) d)
            | f # fs \<Rightarrow> Some (Returned (snd (last (f # fs)))))"
    by blast
qed

subsection \<open>\<^verbatim>\<open>handleAfterInit\<close>\<close>

lemma AfterInit_count_Cons:
  "AfterInit_count (p # ps) w =
     (case AfterInit (Plugin p) of
        None \<Rightarrow> Suc (AfterInit_count ps w)
      | Some m \<Rightarrow>
          (case fst (m w) of Some e \<Rightarrow> 1 | None \<Rightarrow> Suc (AfterInit_count ps (snd (snd (m w))))))"
  by (simp add: AfterInit_count_def split: prod.splits option.splits)

lemma handleAfterInit_loop_plugins [simp]:
  "plugins (snd (handleAfterInit_loop index rest failed we a)) = plugins a"
  by (induction rest arbitrary: index failed we a)
     (simp_all add: Let_def case_prod_beta split: option.splits)

lemma handleAfterInit_loop_initDuration [simp]:
  "initDuration (snd (handleAfterInit_loop index rest failed we a)) = initDuration a"
  by (induction rest arbitrary: index failed we a)
     (simp_all add: Let_def case_prod_beta split: option.splits)

lemma handleAfterInit_loop_failed_calls:
  "calls (snd (handleAfterInit_loop index rest True we a)) = calls a"
  by (induction rest arbitrary: index we a) (simp_all add: Let_def)

lemma handleAfterInit_loop_failed_world:
  "world (snd (handleAfterInit_loop index rest True we a)) = world a"
  by (induction rest arbitrary: index we a) (simp_all add: Let_def)

lemma handleAfterInit_loop_failed_result:
  "fst (handleAfterInit_loop index rest True we a) = (True, we)"
  by (induction rest arbitrary: index we a) (simp_all add: Let_def)

lemma handleAfterInit_loop_calls:
  "index = length pre \<Longrightarrow>
     calls (snd (handleAfterInit_loop index rest False we a)) =
       calls a @ map AfterInit_call
         (filter (\<lambda>i. AfterInit (Plugin ((pre @ rest) ! i)) \<noteq> None)
            [index..<index + AfterInit_count rest (world a)])"
proof (induction rest arbitrary: index pre we a)
  case Nil
  then show ?case by (simp add: AfterInit_count_def)
next
  case (Cons p rest)
  have IH: "\<And>we a. calls (snd (handleAfterInit_loop (Suc index) rest False we a)) =
       calls a @ map AfterInit_call
         (filter (\<lambda>i. AfterInit (Plugin ((pre @ p # rest) ! i)) \<noteq> None)
            [Suc index..<Suc index + AfterInit_count rest (world a)])"
    using Cons.IH [of "Suc index" "pre @ [p]"] Cons.prems by simp
  have here: "(pre @ p # rest) ! index = p"
    using Cons.prems by simp
  show ?case
    by (simp add: Let_def case_prod_beta AfterInit_count_Cons IH here
        handleAfterInit_loop_failed_calls upt_conv_Cons split: option.splits)
qed

lemma handleAfterInit_loop_world:
  "world (snd (handleAfterInit_loop index rest False we a)) =
     world_after_AfterInit rest (world a)"
proof (induction rest arbitrary: index we a)
  case Nil
  then show ?case by simp
next
  case (Cons p rest)
  show ?case
    by (simp add: Let_def case_prod_beta Cons.IH handleAfterInit_loop_failed_world
        split: option.splits prod.splits)
qed

lemma handleAfterInit_loop_no_error:
  "first_AfterInit_error rest (world a) = None \<Longrightarrow>
     fst (handleAfterInit_loop index rest False we a) = (False, we)"
proof (induction rest arbitrary: index a)
  case Nil
  then show ?case by simp
next
  case (Cons p rest)
  from Cons.prems show ?case
    by (auto simp add: Let_def case_prod_beta Cons.IH split: option.splits prod.splits)
qed

lemma handleAfterInit_loop_error:
  "first_AfterInit_error rest (world a) = Some k \<Longrightarrow>
     \<exists>d. fst (handleAfterInit_loop index rest False we a) =
       (True, Some (Errorf_logAfterErrorFmt (PluginName (rest ! k))
                      (AfterInit_error_text rest (world a)) d))"
proof (induction rest arbitrary: index a k)
  case Nil
  then show ?case by simp
next
  case (Cons p rest)
  let ?a0 = "a\<lparr>currentlyProcessing := PluginName p\<rparr>"
  show ?case
  proof (cases "AfterInit (Plugin p)")
    case None
    with Cons.prems obtain k' where k': "k = Suc k'"
      "first_AfterInit_error rest (world a) = Some k'"
      by auto
    define a2 where "a2 = log Info (logNoAfterInitFmt (PluginName p)) ?a0"
    have w: "world a2 = world a" by (simp add: a2_def)
    have step: "handleAfterInit_loop index (p # rest) False we a =
        handleAfterInit_loop (Suc index) rest False we a2"
      using None by (simp add: Let_def a2_def)
    from Cons.IH [of a2 k' "Suc index"] k' w None show ?thesis
      unfolding step by simp
  next
    case (Some m)
    show ?thesis
    proof (cases "fst (m (world a))")
      case None
      with Some Cons.prems obtain k' where k': "k = Suc k'"
        "first_AfterInit_error rest (snd (snd (m (world a)))) = Some k'"
        by (auto split: prod.splits)
      define a1 where "a1 = snd (invoke (AfterInit_call index) m ?a0)"
      define a2 where
        "a2 = log Info (logAfterSuccessFmt (PluginName p) (time_Since (clock a) (clock a1))) a1"
      have w: "world a2 = snd (snd (m (world a)))"
        by (simp add: a2_def a1_def)
      have step: "handleAfterInit_loop index (p # rest) False we a =
          handleAfterInit_loop (Suc index) rest False we a2"
        using None Some by (simp add: Let_def case_prod_beta a2_def a1_def)
      from Cons.IH [of a2 k' "Suc index"] k' w None Some show ?thesis
        unfolding step by (simp add: case_prod_beta)
    next
      case (Some e)
      with \<open>AfterInit (Plugin p) = Some m\<close> Cons.prems have "k = 0"
        by (auto split: prod.splits)
      with Some \<open>AfterInit (Plugin p) = Some m\<close> show ?thesis
        by (simp add: Let_def case_prod_beta handleAfterInit_loop_failed_result
            split: prod.splits)
    qed
  qed
qed

lemma first_AfterInit_error_less: "first_AfterInit_error ps w = Some k \<Longrightarrow> k < length ps"
  by (induction ps arbitrary: w k) (auto split: prod.splits option.splits)

lemma handleAfterInit_plugins [simp]: "plugins (snd (handleAfterInit a)) = plugins a"
  by (simp add: handleAfterInit_def Let_def case_prod_beta)

lemma handleAfterInit_initDuration [simp]:
  "initDuration (snd (handleAfterInit a)) = initDuration a"
  by (simp add: handleAfterInit_def Let_def case_prod_beta)

lemma handleAfterInit_afterInitDuration [simp]:
  "afterInitDuration (snd (handleAfterInit a)) \<noteq> defaultTimerValue"
  by (simp add: handleAfterInit_def Let_def case_prod_beta)

lemma handleAfterInit_success:
  assumes "first_AfterInit_error (plugins a) (world a) = None"
  shows "fst (handleAfterInit a) = None"
    and "calls (snd (handleAfterInit a)) =
           calls a @ map AfterInit_call
             (filter (\<lambda>i. AfterInit (Plugin (plugins a ! i)) \<noteq> None) [0..<length (plugins a)])"
    and "world (snd (handleAfterInit a)) = world_after_AfterInit (plugins a) (world a)"
proof -
  let ?a1 = "a\<lparr>afterInitDuration := defaultTimerValue\<rparr>"
  have r: "fst (handleAfterInit_loop 0 (plugins a) False None ?a1) = (False, None)"
    using assms by (simp add: handleAfterInit_loop_no_error)
  then show "fst (handleAfterInit a) = None"
    by (simp add: handleAfterInit_def Let_def case_prod_beta)
  from r show "calls (snd (handleAfterInit a)) =
           calls a @ map AfterInit_call
             (filter (\<lambda>i. AfterInit (Plugin (plugins a ! i)) \<noteq> None) [0..<length (plugins a)])"
    using assms handleAfterInit_loop_calls [of 0 "[]" "plugins a" None ?a1]
    by (simp add: handleAfterInit_def Let_def case_prod_beta AfterInit_count_def)
  from r show "world (snd (handleAfterInit a)) = world_after_AfterInit (plugins a) (world a)"
    by (simp add: handleAfterInit_def Let_def case_prod_beta handleAfterInit_loop_world)
qed

lemma handleAfterInit_failure:
  assumes "first_AfterInit_error (plugins a) (world a) = Some k"
  shows "\<exists>d. fst (handleAfterInit a) =
           Some (Errorf_logAfterErrorFmt (PluginName (plugins a ! k))
                   (AfterInit_error_text (plugins a) (world a)) d)"
    and "calls (snd (handleAfterInit a)) =
           calls a @ map AfterInit_call
             (filter (\<lambda>i. AfterInit (Plugin (plugins a ! i)) \<noteq> None) [0..<Suc k])
           @ map Close_Plugin_call (rev [0..<length (plugins a)])"
    and "world (snd (handleAfterInit a)) =
           world_after_release Plugin_Close (length (plugins a)) (plugins a)
             (world_after_AfterInit (plugins a) (world a))"
proof -
  let ?a1 = "a\<lparr>afterInitDuration := defaultTimerValue\<rparr>"
  let ?l = "handleAfterInit_loop 0 (plugins a) False None ?a1"
  from handleAfterInit_loop_error [of "plugins a" ?a1 k 0 None] assms
  obtain d where r: "fst ?l =
      (True, Some (Errorf_logAfterErrorFmt (PluginName (plugins a ! k))
         (AfterInit_error_text (plugins a) (world a)) d))"
    by auto
  then have "fst (handleAfterInit a) =
           Some (Errorf_logAfterErrorFmt (PluginName (plugins a ! k))
                   (AfterInit_error_text (plugins a) (world a)) d)"
    by (simp add: handleAfterInit_def Let_def case_prod_beta)
  then show "\<exists>d. fst (handleAfterInit a) =
           Some (Errorf_logAfterErrorFmt (PluginName (plugins a ! k))
                   (AfterInit_error_text (plugins a) (world a)) d)"
    by blast
  from r show "calls (snd (handleAfterInit a)) =
           calls a @ map AfterInit_call
             (filter (\<lambda>i. AfterInit (Plugin (plugins a ! i)) \<noteq> None) [0..<Suc k])
           @ map Close_Plugin_call (rev [0..<length (plugins a)])"
    using assms handleAfterInit_loop_calls [of 0 "[]" "plugins a" None ?a1]
    by (simp add: handleAfterInit_def Let_def case_prod_beta AfterInit_count_def Stop_calls)
  from r show "world (snd (handleAfterInit a)) =
           world_after_release Plugin_Close (length (plugins a)) (plugins a)
             (world_after_AfterInit (plugins a) (world a))"
    by (simp add: handleAfterInit_def Let_def case_prod_beta Stop_world
        handleAfterInit_loop_world)
qed

subsection \<open>\<^verbatim>\<open>Start\<close>, when the goroutine's signal is received\<close>

lemma pipeline_phase1_error:
  "fst (initPlugins a) \<noteq> None \<Longrightarrow> pipeline a = initPlugins a"
  by (cases "initPlugins a") (auto simp add: pipeline_def)

lemma pipeline_phase2:
  "fst (initPlugins a) = None \<Longrightarrow> pipeline a = handleAfterInit (snd (initPlugins a))"
proof -
  assume n: "fst (initPlugins a) = None"
  obtain r a1 where i: "initPlugins a = (r, a1)" by (cases "initPlugins a")
  obtain r2 a2 where h: "handleAfterInit a1 = (r2, a2)" by (cases "handleAfterInit a1")
  from n i h show ?thesis by (cases r2) (simp_all add: pipeline_def)
qed

lemma pipeline_plugins [simp]: "plugins (snd (pipeline a)) = plugins a"
  by (cases "fst (initPlugins a)") (simp_all add: pipeline_phase1_error pipeline_phase2)

lemma pipeline_initDuration [simp]:
  "initDuration (snd (pipeline a)) \<noteq> defaultTimerValue"
  by (cases "fst (initPlugins a)") (simp_all add: pipeline_phase1_error pipeline_phase2)

lemma Start_None_result: "fst (Start None a) = fst (pipeline (log Info Starting_the_agent a))"
proof -
  obtain r a1 where p: "pipeline (log Info Starting_the_agent a) = (r, a1)"
    by (cases "pipeline (log Info Starting_the_agent a)")
  then show ?thesis by (cases r) (simp_all add: Start_def Let_def)
qed

lemma Start_None_fields:
  "plugins (snd (Start None a)) = plugins a"
  "calls (snd (Start None a)) = calls (snd (pipeline (log Info Starting_the_agent a)))"
  "world (snd (Start None a)) = world (snd (pipeline (log Info Starting_the_agent a)))"
  "initDuration (snd (Start None a)) = initDuration (snd (pipeline (log Info Starting_the_agent a)))"
  "afterInitDuration (snd (Start None a)) =
     afterInitDuration (snd (pipeline (log Info Starting_the_agent a)))"
proof -
  obtain r a1 where p: "pipeline (log Info Starting_the_agent a) = (r, a1)"
    by (cases "pipeline (log Info Starting_the_agent a)")
  have "plugins (snd (pipeline (log Info Starting_the_agent a))) = plugins a"
    by simp
  with p have pl: "plugins a1 = plugins a" by simp
  from p pl show "plugins (snd (Start None a)) = plugins a"
    by (cases r) (simp_all add: Start_def Let_def)
  from p show "calls (snd (Start None a)) = calls (snd (pipeline (log Info Starting_the_agent a)))"
    by (cases r) (simp_all add: Start_def Let_def)
  from p show "world (snd (Start None a)) = world (snd (pipeline (log Info Starting_the_agent a)))"
    by (cases r) (simp_all add: Start_def Let_def)
  from p show "initDuration (snd (Start None a)) =
      initDuration (snd (pipeline (log Info Starting_the_agent a)))"
    by (cases r) (simp_all add: Start_def Let_def)
  from p show "afterInitDuration (snd (Start None a)) =
      afterInitDuration (snd (pipeline (log Info Starting_the_agent a)))"
    by (cases r) (simp_all add: Start_def Let_def)
qed

lemma Start_None_reports_total:
  "fst (pipeline (log Info Starting_the_agent a)) = None \<Longrightarrow>
     last (Logger (snd (Start None a))) =
       (Info, All_plugins_initialized_successfully_took
          (initDuration (snd (Start None a)) + afterInitDuration (snd (Start None a))))"
proof -
  assume n: "fst (pipeline (log Info Starting_the_agent a)) = None"
  obtain r a1 where p: "pipeline (log Info Starting_the_agent a) = (r, a1)"
    by (cases "pipeline (log Info Starting_the_agent a)")
  with n show ?thesis by (simp add: Start_def Let_def)
qed

subsection \<open>The goroutine's body, by the first error of the run\<close>

lemma pipeline_Init_failure:
  assumes "first_Init_error (plugins a) (world a) = Some k"
  shows "calls (snd (pipeline a)) =
           calls a @ map Init_call [0..<Suc k]
             @ map Close_NamedPlugin_call (rev [0..<length (plugins a)])"
    and "\<exists>d. fst (pipeline a) =
           (case release_failures NamedPlugin_Close (length (plugins a)) (plugins a)
                   (world_after_Init (plugins a) (world a)) of
              [] \<Rightarrow> Some (Errorf_logErrorFmt (PluginName (plugins a ! k))
                             (Init_error_text (plugins a) (world a)) d)
            | f # fs \<Rightarrow> Some (Returned (snd (last (f # fs)))))"
proof -
  from initPlugins_failure(3) [OF assms] obtain d where d: "fst (initPlugins a) =
           (case release_failures NamedPlugin_Close (length (plugins a)) (plugins a)
                   (world_after_Init (plugins a) (world a)) of
              [] \<Rightarrow> Some (Errorf_logErrorFmt (PluginName (plugins a ! k))
                             (Init_error_text (plugins a) (world a)) d)
            | f # fs \<Rightarrow> Some (Returned (snd (last (f # fs)))))"
    by blast
  then have "fst (initPlugins a) \<noteq> None"
    by (simp split: list.splits)
  then have p: "pipeline a = initPlugins a"
    by (rule pipeline_phase1_error)
  show "calls (snd (pipeline a)) =
           calls a @ map Init_call [0..<Suc k]
             @ map Close_NamedPlugin_call (rev [0..<length (plugins a)])"
    using initPlugins_failure(1) [OF assms] by (simp add: p)
  from d show "\<exists>d. fst (pipeline a) =
           (case release_failures NamedPlugin_Close (length (plugins a)) (plugins a)
                   (world_after_Init (plugins a) (world a)) of
              [] \<Rightarrow> Some (Errorf_logErrorFmt (PluginName (plugins a ! k))
                             (Init_error_text (plugins a) (world a)) d)
            | f # fs \<Rightarrow> Some (Returned (snd (last (f # fs)))))"
    unfolding p by blast
qed

lemma pipeline_AfterInit:
  assumes "first_Init_error (plugins a) (world a) = None"
  shows "pipeline a = handleAfterInit (snd (initPlugins a))"
  using initPlugins_success(1) [OF assms] by (rule pipeline_phase2)

lemma pipeline_AfterInit_failure:
  assumes "first_Init_error (plugins a) (world a) = None"
    and "first_AfterInit_error (plugins a) (world_after_Init (plugins a) (world a)) = Some k"
  shows "calls (snd (pipeline a)) =
           calls a @ map Init_call [0..<length (plugins a)]
             @ map AfterInit_call
                 (filter (\<lambda>i. AfterInit (Plugin (plugins a ! i)) \<noteq> None) [0..<Suc k])
             @ map Close_Plugin_call (rev [0..<length (plugins a)])"
    and "\<exists>d. fst (pipeline a) =
           Some (Errorf_logAfterErrorFmt (PluginName (plugins a ! k))
                   (AfterInit_error_text (plugins a) (world_after_Init (plugins a) (world a))) d)"
proof -
  let ?a1 = "snd (initPlugins a)"
  note p = pipeline_AfterInit [OF assms(1)]
  note i = initPlugins_success [OF assms(1)]
  have k: "first_AfterInit_error (plugins ?a1) (world ?a1) = Some k"
    using assms(2) i(3) by simp
  from handleAfterInit_failure(2) [OF k] i(2)
  show "calls (snd (pipeline a)) =
           calls a @ map Init_call [0..<length (plugins a)]
             @ map AfterInit_call
                 (filter (\<lambda>i. AfterInit (Plugin (plugins a ! i)) \<noteq> None) [0..<Suc k])
             @ map Close_Plugin_call (rev [0..<length (plugins a)])"
    by (simp add: p)
  from handleAfterInit_failure(1) [OF k] i(3)
  show "\<exists>d. fst (pipeline a) =
           Some (Errorf_logAfterErrorFmt (PluginName (plugins a ! k))
                   (AfterInit_error_text (plugins a) (world_after_Init (plugins a) (world a))) d)"
    by (simp add: p)
qed

lemma pipeline_success:
  assumes "first_Init_error (plugins a) (world a) = None"
    and "first_AfterInit_error (plugins a) (world_after_Init (plugins a) (world a)) = None"
  shows "calls (snd (pipeline a)) =
           calls a @ map Init_call [0..<length (plugins a)]
             @ map AfterInit_call
                 (filter (\<lambda>i. AfterInit (Plugin (plugins a ! i)) \<noteq> None)
                    [0..<length (plugins a)])"
    and "world (snd (pipeline a)) =
           world_after_AfterInit (plugins a) (world_after_Init (plugins a) (world a))"
    and "fst (pipeline a) = None"
proof -
  let ?a1 = "snd (initPlugins a)"
  note p = pipeline_AfterInit [OF assms(1)]
  note i = initPlugins_success [OF assms(1)]
  have n: "first_AfterInit_error (plugins ?a1) (world ?a1) = None"
    using assms(2) i(3) by simp
  from handleAfterInit_success(2) [OF n] i(2)
  show "calls (snd (pipeline a)) =
           calls a @ map Init_call [0..<length (plugins a)]
             @ map AfterInit_call
                 (filter (\<lambda>i. AfterInit (Plugin (plugins a ! i)) \<noteq> None)
                    [0..<length (plugins a)])"
    by (simp add: p)
  from handleAfterInit_success(3) [OF n] i(3)
  show "world (snd (pipeline a)) =
           world_after_AfterInit (plugins a) (world_after_Init (plugins a) (world a))"
    by (simp add: p)
  from handleAfterInit_success(1) [OF n] show "fst (pipeline a) = None"
    by (simp add: p)
qed

subsection \<open>\<^verbatim>\<open>Start\<close>, by the first error of the run\<close>

lemma Start_None_phase1_failure:
  assumes "first_Init_error (plugins a) (world a) = Some k"
  shows "calls (snd (Start None a)) =
           calls a @ map Init_call [0..<Suc k]
             @ map Close_NamedPlugin_call (rev [0..<length (plugins a)])"
    and "\<exists>d. fst (Start None a) =
           (case release_failures NamedPlugin_Close (length (plugins a)) (plugins a)
                   (world_after_Init (plugins a) (world a)) of
              [] \<Rightarrow> Some (Errorf_logErrorFmt (PluginName (plugins a ! k))
                             (Init_error_text (plugins a) (world a)) d)
            | f # fs \<Rightarrow> Some (Returned (snd (last (f # fs)))))"
  using pipeline_Init_failure [of "log Info Starting_the_agent a" k] assms
  by (simp_all add: Start_None_fields Start_None_result cong: list.case_cong)

lemma Start_None_phase2_failure:
  assumes "first_Init_error (plugins a) (world a) = None"
    and "first_AfterInit_error (plugins a) (world_after_Init (plugins a) (world a)) = Some k"
  shows "calls (snd (Start None a)) =
           calls a @ map Init_call [0..<length (plugins a)]
             @ map AfterInit_call
                 (filter (\<lambda>i. AfterInit (Plugin (plugins a ! i)) \<noteq> None) [0..<Suc k])
             @ map Close_Plugin_call (rev [0..<length (plugins a)])"
    and "\<exists>d. fst (Start None a) =
           Some (Errorf_logAfterErrorFmt (PluginName (plugins a ! k))
                   (AfterInit_error_text (plugins a) (world_after_Init (plugins a) (world a))) d)"
  using pipeline_AfterInit_failure [of "log Info Starting_the_agent a" k] assms
  by (simp_all add: Start_None_fields Start_None_result)

lemma Start_None_success:
  assumes "first_Init_error (plugins a) (world a) = None"
    and "first_AfterInit_error (plugins a) (world_after_Init (plugins a) (world a)) = None"
  shows "calls (snd (Start None a)) =
           calls a @ map Init_call [0..<length (plugins a)]
             @ map AfterInit_call
                 (filter (\<lambda>i. AfterInit (Plugin (plugins a ! i)) \<noteq> None)
                    [0..<length (plugins a)])"
    and "world (snd (Start None a)) =
           world_after_AfterInit (plugins a) (world_after_Init (plugins a) (world a))"
    and "fst (Start None a) = None"
  using pipeline_success [of "log Info Starting_the_agent a"] assms
  by (simp_all add: Start_None_fields Start_None_result)

text \<open>The equations that run the agent on given plugins.\<close>

lemmas run_defs = NewAgent_def named_def acquire_def give_back_def failing_def
  Start_def pipeline_def initPlugins_def handleAfterInit_def Stop_def
  invoke_def safeclose_Close_def log_def time_Since_def maxDuration_def defaultTimerValue_def
  Let_def

text \<open>
  C2. When every \<^verbatim>\<open>Init\<close> and every \<^verbatim>\<open>AfterInit\<close> succeeds and the \<^verbatim>\<open>select\<close>
  receives the closing of \<^verbatim>\<open>doneChannel\<close>, \<^verbatim>\<open>Start\<close> returns nil, neither duration is
  left at \<^verbatim>\<open>defaultTimerValue\<close>, and the last entry logged is the total,
  \<^verbatim>\<open>agent.initDuration + agent.afterInitDuration\<close> (the sum of two \<^verbatim>\<open>int64\<close>, as the
  code computes it).
\<close>

theorem Start_all_succeed:
  assumes "first_Init_error (plugins a) (world a) = None"
    and "first_AfterInit_error (plugins a) (world_after_Init (plugins a) (world a)) = None"
  shows "fst (Start None a) = None
     \<and> initDuration (snd (Start None a)) \<noteq> defaultTimerValue
     \<and> afterInitDuration (snd (Start None a)) \<noteq> defaultTimerValue
     \<and> last (Logger (snd (Start None a))) =
         (Info, All_plugins_initialized_successfully_took
            (initDuration (snd (Start None a)) + afterInitDuration (snd (Start None a))))"
proof -
  let ?a0 = "log Info Starting_the_agent a"
  have i: "fst (initPlugins ?a0) = None"
    and w: "world (snd (initPlugins ?a0)) = world_after_Init (plugins a) (world a)"
    using assms(1) initPlugins_success [of ?a0] by simp_all
  have h: "fst (handleAfterInit (snd (initPlugins ?a0))) = None"
    using assms(2) w handleAfterInit_success(1) [of "snd (initPlugins ?a0)"] by simp
  have p: "pipeline ?a0 = handleAfterInit (snd (initPlugins ?a0))"
    using i by (rule pipeline_phase2)
  have r: "fst (pipeline ?a0) = None" using p h by simp
  have "initDuration (snd (pipeline ?a0)) \<noteq> defaultTimerValue" by simp
  moreover have "afterInitDuration (snd (pipeline ?a0)) \<noteq> defaultTimerValue"
    unfolding p by simp
  ultimately show ?thesis
    using r Start_None_reports_total [OF r]
    by (simp add: Start_None_result Start_None_fields)
qed

text \<open>
  On the two plugins: \<^verbatim>\<open>Init\<close> took two nanoseconds, \<^verbatim>\<open>AfterInit\<close> one, and the
  total logged is three.
\<close>

theorem Start_all_succeed_witness:
  "first_Init_error two_plugins [] = None
   \<and> first_AfterInit_error two_plugins (world_after_Init two_plugins []) = None
   \<and> fst (Start None (NewAgent 5 two_plugins [])) = None
   \<and> initDuration (snd (Start None (NewAgent 5 two_plugins []))) = 2
   \<and> afterInitDuration (snd (Start None (NewAgent 5 two_plugins []))) = 1
   \<and> last (Logger (snd (Start None (NewAgent 5 two_plugins [])))) =
        (Info, All_plugins_initialized_successfully_took 3)"
proof -
  have 1: "first_Init_error (plugins (NewAgent 5 two_plugins []))
             (world (NewAgent 5 two_plugins [])) = None"
    by (simp add: NewAgent_def two_plugins_def named_def acquire_def)
  have 2: "first_AfterInit_error (plugins (NewAgent 5 two_plugins []))
             (world_after_Init (plugins (NewAgent 5 two_plugins []))
                (world (NewAgent 5 two_plugins []))) = None"
    by (simp add: NewAgent_def two_plugins_def named_def acquire_def)
  have d: "initDuration (snd (Start None (NewAgent 5 two_plugins []))) = 2"
    "afterInitDuration (snd (Start None (NewAgent 5 two_plugins []))) = 1"
    by (simp_all add: two_plugins_def run_defs)
  from Start_all_succeed [OF 1 2] 1 2 d show ?thesis
    by (simp add: NewAgent_def)
qed

text \<open>
  C3. When every \<^verbatim>\<open>Init\<close> succeeds and the plugin at index \<open>k\<close> is the first whose
  \<^verbatim>\<open>AfterInit\<close> returns an error (and the \<^verbatim>\<open>select\<close> receives that error), the calls
  made are: \<^verbatim>\<open>Init\<close> on every index, \<^verbatim>\<open>AfterInit\<close> on the \<^verbatim>\<open>PostInit\<close> plugins of the
  indices up to \<open>k\<close> and on none after \<open>k\<close>, then the releases of \<^verbatim>\<open>Stop\<close> on the
  indices \<open>N - 1\<close> down to \<open>0\<close>; and \<^verbatim>\<open>Start\<close> returns the error built from
  \<^verbatim>\<open>logAfterErrorFmt\<close> with the name of plugin \<open>k\<close> and the cause its \<^verbatim>\<open>AfterInit\<close>
  returned.
\<close>

theorem Start_AfterInit_failure:
  assumes "first_Init_error (plugins a) (world a) = None"
    and "first_AfterInit_error (plugins a) (world_after_Init (plugins a) (world a)) = Some k"
  shows "calls (snd (Start None a)) =
           calls a @ map Init_call [0..<length (plugins a)]
             @ map AfterInit_call
                 (filter (\<lambda>i. AfterInit (Plugin (plugins a ! i)) \<noteq> None) [0..<Suc k])
             @ map Close_Plugin_call (rev [0..<length (plugins a)])
     \<and> (\<exists>d. fst (Start None a) =
           Some (Errorf_logAfterErrorFmt (PluginName (plugins a ! k))
                   (AfterInit_error_text (plugins a) (world_after_Init (plugins a) (world a))) d))"
  using Start_None_phase2_failure [OF assms] by blast

text \<open>
  On the three plugins the second \<^verbatim>\<open>AfterInit\<close> fails: the third is not called, and all
  three plugins are released, the third first.
\<close>

theorem Start_AfterInit_failure_witness:
  "first_Init_error late_failure [] = None
   \<and> first_AfterInit_error late_failure (world_after_Init late_failure []) = Some 1
   \<and> calls (snd (Start None (NewAgent 5 late_failure []))) =
       [Init_call 0, Init_call 1, Init_call 2, AfterInit_call 0, AfterInit_call 1,
        Close_Plugin_call 2, Close_Plugin_call 1, Close_Plugin_call 0]
   \<and> (\<exists>d. fst (Start None (NewAgent 5 late_failure [])) =
         Some (Errorf_logAfterErrorFmt ''p1'' ''late'' d))"
proof -
  have 1: "first_Init_error (plugins (NewAgent 5 late_failure []))
             (world (NewAgent 5 late_failure [])) = None"
    by (simp add: NewAgent_def late_failure_def named_def acquire_def)
  have 2: "first_AfterInit_error (plugins (NewAgent 5 late_failure []))
             (world_after_Init (plugins (NewAgent 5 late_failure []))
                (world (NewAgent 5 late_failure []))) = Some 1"
    by (simp add: NewAgent_def late_failure_def named_def acquire_def failing_def)
  from Start_AfterInit_failure [OF 1 2] 1 2 show ?thesis
    by (simp add: NewAgent_def late_failure_def named_def acquire_def failing_def
        numeral_3_eq_3 upt_rec)
qed

lemma list_all_is_release [simp]:
  "list_all is_release (map Close_Plugin_call xs)"
  "list_all is_release (map Close_NamedPlugin_call xs)"
  by (simp_all add: list_all_iff is_release_def)

lemma sorted_filter_upt: "sorted_wrt (<) (filter P [m..<n])"
  by (rule sorted_wrt_filter) simp

lemma pipeline_order:
  "\<exists>m xs cs.
     calls (snd (pipeline a)) = calls a @ map Init_call [0..<m] @ map AfterInit_call xs @ cs
     \<and> m \<le> length (plugins a)
     \<and> (xs \<noteq> [] \<longrightarrow> m = length (plugins a))
     \<and> sorted_wrt (<) xs
     \<and> list_all is_release cs"
proof (cases "first_Init_error (plugins a) (world a)")
  case (Some k)
  let ?cs = "map Close_NamedPlugin_call (rev [0..<length (plugins a)])"
  from Some have "k < length (plugins a)" by (rule first_Init_error_less)
  moreover from pipeline_Init_failure(1) [OF Some]
  have "calls (snd (pipeline a)) =
      calls a @ map Init_call [0..<Suc k] @ map AfterInit_call [] @ ?cs"
    by simp
  ultimately have "calls (snd (pipeline a)) =
        calls a @ map Init_call [0..<Suc k] @ map AfterInit_call [] @ ?cs
      \<and> Suc k \<le> length (plugins a)
      \<and> (([]::nat list) \<noteq> [] \<longrightarrow> Suc k = length (plugins a))
      \<and> sorted_wrt (<) ([]::nat list)
      \<and> list_all is_release ?cs"
    by simp
  then show ?thesis by blast
next
  case None
  show ?thesis
  proof (cases "first_AfterInit_error (plugins a) (world_after_Init (plugins a) (world a))")
    case (Some k)
    let ?xs = "filter (\<lambda>i. AfterInit (Plugin (plugins a ! i)) \<noteq> None) [0..<Suc k]"
    let ?cs = "map Close_Plugin_call (rev [0..<length (plugins a)])"
    from pipeline_AfterInit_failure(1) [OF None Some]
    have "calls (snd (pipeline a)) =
        calls a @ map Init_call [0..<length (plugins a)] @ map AfterInit_call ?xs @ ?cs
      \<and> length (plugins a) \<le> length (plugins a)
      \<and> (?xs \<noteq> [] \<longrightarrow> length (plugins a) = length (plugins a))
      \<and> sorted_wrt (<) ?xs
      \<and> list_all is_release ?cs"
      by (simp add: sorted_filter_upt del: upt_Suc)
    then show ?thesis by blast
  next
    case None2: None
    let ?xs = "filter (\<lambda>i. AfterInit (Plugin (plugins a ! i)) \<noteq> None) [0..<length (plugins a)]"
    from pipeline_success(1) [OF None None2]
    have "calls (snd (pipeline a)) =
        calls a @ map Init_call [0..<length (plugins a)] @ map AfterInit_call ?xs @ []
      \<and> length (plugins a) \<le> length (plugins a)
      \<and> (?xs \<noteq> [] \<longrightarrow> length (plugins a) = length (plugins a))
      \<and> sorted_wrt (<) ?xs
      \<and> list_all is_release []"
      by (simp add: sorted_filter_upt)
    then show ?thesis by blast
  qed
qed

text \<open>
  C5. The calls that the goroutine of \<^verbatim>\<open>Start\<close> makes, from any state of the agent, and
  so the calls of a \<^verbatim>\<open>Start\<close> that receives its signal: one after the other, each in the
  world the call before left, first \<^verbatim>\<open>Init\<close> on the indices \<open>0, 1, \<dots>, m - 1\<close> in this
  order, then \<^verbatim>\<open>AfterInit\<close> on indices that increase strictly, then only releases. An
  \<^verbatim>\<open>AfterInit\<close> is called only when \<open>m\<close> is the length of the list, that is, after the
  \<^verbatim>\<open>Init\<close> of every plugin has returned.
\<close>

theorem Start_order:
  "(\<exists>m xs cs.
      calls (snd (pipeline a)) = calls a @ map Init_call [0..<m] @ map AfterInit_call xs @ cs
      \<and> m \<le> length (plugins a)
      \<and> (xs \<noteq> [] \<longrightarrow> m = length (plugins a))
      \<and> sorted_wrt (<) xs
      \<and> list_all is_release cs)
   \<and> (\<exists>m xs cs.
      calls (snd (Start None a)) = calls a @ map Init_call [0..<m] @ map AfterInit_call xs @ cs
      \<and> m \<le> length (plugins a)
      \<and> (xs \<noteq> [] \<longrightarrow> m = length (plugins a))
      \<and> sorted_wrt (<) xs
      \<and> list_all is_release cs)"
  using pipeline_order [of a] pipeline_order [of "log Info Starting_the_agent a"]
  by (simp add: Start_None_fields)

text \<open>
  On the three plugins of \<open>late_failure\<close>: three \<^verbatim>\<open>Init\<close> calls in list order, then
  the \<^verbatim>\<open>AfterInit\<close> of the first and of the second plugin, then the releases.
\<close>

theorem Start_order_witness:
  "calls (snd (Start None (NewAgent 5 late_failure []))) =
     map Init_call [0..<3] @ map AfterInit_call [0, 1]
       @ [Close_Plugin_call 2, Close_Plugin_call 1, Close_Plugin_call 0]
   \<and> length (plugins (NewAgent 5 late_failure [])) = 3"
proof -
  have 1: "first_Init_error (plugins (NewAgent 5 late_failure []))
             (world (NewAgent 5 late_failure [])) = None"
    by (simp add: NewAgent_def late_failure_def named_def acquire_def)
  have 2: "first_AfterInit_error (plugins (NewAgent 5 late_failure []))
             (world_after_Init (plugins (NewAgent 5 late_failure []))
                (world (NewAgent 5 late_failure []))) = Some 1"
    by (simp add: NewAgent_def late_failure_def named_def acquire_def failing_def)
  from Start_None_phase2_failure(1) [OF 1 2] Start_order [of "NewAgent 5 late_failure []"]
  show ?thesis
    by (simp add: NewAgent_def late_failure_def named_def numeral_3_eq_3 upt_rec)
qed

lemma released_map [simp]:
  "released (map Close_NamedPlugin_call xs) = xs"
  "released (map Close_Plugin_call xs) = xs"
  by (induction xs) (simp_all add: released_def map_filter_simps)

lemma filter_le_rev_upt:
  "k < n \<Longrightarrow> filter (\<lambda>i. i \<le> k) (rev [0..<n]) = rev [0..<Suc k]"
proof -
  assume "k < n"
  then have "n = Suc k + (n - Suc k)" by simp
  moreover have "[0..<Suc k + (n - Suc k)] = [0..<Suc k] @ [Suc k..<Suc k + (n - Suc k)]"
    by (rule upt_add_eq_append) simp
  ultimately have "[0..<n] = [0..<Suc k] @ [Suc k..<n]"
    by simp
  then have "filter (\<lambda>i. i \<le> k) [0..<n] = [0..<Suc k]"
    by (simp del: upt_Suc add: filter_empty_conv)
  then show ?thesis by (simp add: rev_filter [symmetric] del: upt_Suc)
qed

text \<open>
  C1 says that after a failed \<^verbatim>\<open>Init\<close> at index \<open>k\<close> no plugin after \<open>k\<close> is released and
  that \<^verbatim>\<open>Start\<close> returns the error of that \<^verbatim>\<open>Init\<close>. On \<open>early_failure\<close> the first
  \<^verbatim>\<open>Init\<close> fails, so \<open>k = 0\<close>; the second plugin, never initialized, is released all
  the same, and \<^verbatim>\<open>Start\<close> returns the error of the first plugin's release.
\<close>

theorem Start_Init_failure_counterexample:
  "first_Init_error early_failure [] = Some 0
   \<and> calls (snd (Start None (NewAgent 5 early_failure []))) =
       [Init_call 0, Close_NamedPlugin_call 1, Close_NamedPlugin_call 0]
   \<and> fst (Start None (NewAgent 5 early_failure [])) = Some (Returned ''not open'')"
  by (simp add: early_failure_def run_defs)

text \<open>
  C1, as the code has it. When the plugin at index \<open>k\<close> is the first whose \<^verbatim>\<open>Init\<close>
  returns an error (and the \<^verbatim>\<open>select\<close> receives the goroutine's error): \<^verbatim>\<open>Init\<close> is called
  on the indices \<open>0, \<dots>, k\<close> and on no other; every call after these is a release, and
  the releases made at indices up to \<open>k\<close> are those of \<open>k, k - 1, \<dots>, 0\<close>, in this order;
  \<^verbatim>\<open>Start\<close> returns the error built from \<^verbatim>\<open>logErrorFmt\<close> with the name of plugin \<open>k\<close> and
  the cause its \<^verbatim>\<open>Init\<close> returned when no release of the rollback fails, and otherwise
  the error of the last release that failed.
\<close>

theorem Start_Init_failure:
  assumes "first_Init_error (plugins a) (world a) = Some k"
  shows "(\<exists>t. calls (snd (Start None a)) = calls a @ map Init_call [0..<Suc k] @ t
            \<and> list_all is_release t
            \<and> filter (\<lambda>i. i \<le> k) (released t) = rev [0..<Suc k])
     \<and> (\<exists>d. fst (Start None a) =
           (case release_failures NamedPlugin_Close (length (plugins a)) (plugins a)
                   (world_after_Init (plugins a) (world a)) of
              [] \<Rightarrow> Some (Errorf_logErrorFmt (PluginName (plugins a ! k))
                             (Init_error_text (plugins a) (world a)) d)
            | f # fs \<Rightarrow> Some (Returned (snd (last (f # fs))))))"
proof -
  let ?t = "map Close_NamedPlugin_call (rev [0..<length (plugins a)])"
  from assms have "k < length (plugins a)" by (rule first_Init_error_less)
  then have "filter (\<lambda>i. i \<le> k) (released ?t) = rev [0..<Suc k]"
    by (simp add: filter_le_rev_upt del: upt_Suc)
  with Start_None_phase1_failure(1) [OF assms]
  have "calls (snd (Start None a)) = calls a @ map Init_call [0..<Suc k] @ ?t
      \<and> list_all is_release ?t
      \<and> filter (\<lambda>i. i \<le> k) (released ?t) = rev [0..<Suc k]"
    by simp
  then have "\<exists>t. calls (snd (Start None a)) = calls a @ map Init_call [0..<Suc k] @ t
      \<and> list_all is_release t
      \<and> filter (\<lambda>i. i \<le> k) (released t) = rev [0..<Suc k]"
    by blast
  with Start_None_phase1_failure(2) [OF assms] show ?thesis by blast
qed

text \<open>
  On \<open>middle_failure\<close> the second \<^verbatim>\<open>Init\<close> fails: the third plugin is not initialized,
  the releases at the indices up to \<open>1\<close> are those of \<open>1\<close> and \<open>0\<close>, and the error names
  \<open>p1\<close>.
\<close>

theorem Start_Init_failure_witness:
  "first_Init_error middle_failure [] = Some 1
   \<and> (\<exists>t. calls (snd (Start None (NewAgent 5 middle_failure []))) =
             [Init_call 0, Init_call 1] @ t
           \<and> list_all is_release t
           \<and> filter (\<lambda>i. i \<le> 1) (released t) = [1, 0])
   \<and> (\<exists>d. fst (Start None (NewAgent 5 middle_failure [])) =
          Some (Errorf_logErrorFmt ''p1'' ''boom'' d))"
proof -
  have 1: "first_Init_error (plugins (NewAgent 5 middle_failure []))
             (world (NewAgent 5 middle_failure [])) = Some 1"
    by (simp add: NewAgent_def middle_failure_def named_def acquire_def failing_def)
  from Start_Init_failure [OF 1] 1 show ?thesis
    by (simp add: NewAgent_def middle_failure_def named_def acquire_def failing_def
        give_back_def numeral_3_eq_3)
qed

text \<open>
  C7. When an \<^verbatim>\<open>Init\<close> has failed and a release of the rollback that follows fails,
  \<^verbatim>\<open>Start\<close> returns the error of a release, the last one that failed, as the release
  returned it: the error built for the failed \<^verbatim>\<open>Init\<close> is not part of it.
\<close>

theorem rollback_error_replaces:
  assumes "first_Init_error (plugins a) (world a) = Some k"
    and "release_failures NamedPlugin_Close (length (plugins a)) (plugins a)
           (world_after_Init (plugins a) (world a)) \<noteq> []"
  shows "fst (Start None a) =
           Some (Returned (snd (last (release_failures NamedPlugin_Close (length (plugins a))
                  (plugins a) (world_after_Init (plugins a) (world a))))))"
proof -
  from assms(2) obtain f fs where
    "release_failures NamedPlugin_Close (length (plugins a)) (plugins a)
       (world_after_Init (plugins a) (world a)) = f # fs"
    by (cases "release_failures NamedPlugin_Close (length (plugins a)) (plugins a)
       (world_after_Init (plugins a) (world a))") auto
  with Start_None_phase1_failure(2) [OF assms(1)] show ?thesis
    by simp
qed

text \<open>
  On \<open>rollback_failure\<close> the second \<^verbatim>\<open>Init\<close> fails and both releases fail: what
  \<^verbatim>\<open>Start\<close> returns is the error of the release made last, that of \<open>p0\<close>.
\<close>

theorem rollback_error_replaces_witness:
  "first_Init_error rollback_failure [] = Some 1
   \<and> release_failures NamedPlugin_Close 2 rollback_failure
        (world_after_Init rollback_failure []) = [(''p1'', ''not open''), (''p0'', ''busy'')]
   \<and> fst (Start None (NewAgent 5 rollback_failure [])) = Some (Returned ''busy'')"
proof -
  have 1: "first_Init_error (plugins (NewAgent 5 rollback_failure []))
             (world (NewAgent 5 rollback_failure [])) = Some 1"
    by (simp add: NewAgent_def rollback_failure_def named_def acquire_def failing_def)
  have 2: "release_failures NamedPlugin_Close (length (plugins (NewAgent 5 rollback_failure [])))
             (plugins (NewAgent 5 rollback_failure []))
             (world_after_Init (plugins (NewAgent 5 rollback_failure []))
                (world (NewAgent 5 rollback_failure []))) =
           [(''p1'', ''not open''), (''p0'', ''busy'')]"
    by (simp add: NewAgent_def rollback_failure_def named_def acquire_def failing_def
        numeral_2_eq_2)
  have 3: "release_failures NamedPlugin_Close (length (plugins (NewAgent 5 rollback_failure [])))
             (plugins (NewAgent 5 rollback_failure []))
             (world_after_Init (plugins (NewAgent 5 rollback_failure []))
                (world (NewAgent 5 rollback_failure []))) \<noteq> []"
    unfolding 2 by simp
  have len: "length rollback_failure = 2"
    by (simp add: rollback_failure_def)
  from rollback_error_replaces [OF 1 3] 1 2 show ?thesis
    by (simp add: NewAgent_def len)
qed

subsection \<open>\<^verbatim>\<open>Stop\<close> called twice\<close>

text \<open>
  C9 says that a second \<^verbatim>\<open>Stop\<close> after a successful one does not release again what is
  released. On \<open>one_plugin\<close>, holding its resource, the first \<^verbatim>\<open>Stop\<close> returns nil; the
  second calls the release of the plugin again, and the plugin's \<^verbatim>\<open>Close\<close> runs a second
  time and fails.
\<close>

theorem Stop_twice_counterexample:
  "fst (Stop (NewAgent 5 one_plugin [''r0''])) = None
   \<and> calls (snd (Stop (snd (Stop (NewAgent 5 one_plugin [''r0''])))))
       = [Close_Plugin_call 0, Close_Plugin_call 0]
   \<and> fst (Stop (snd (Stop (NewAgent 5 one_plugin [''r0''])))) =
       Some (errors_New ''p0: released twice'')"
  by (simp add: one_plugin_def give_back_once_def run_defs)

text \<open>
  C9, as the code has it. \<^verbatim>\<open>Stop\<close> keeps no record of what it has released: called again
  after a \<^verbatim>\<open>Stop\<close> that returned nil, it applies the release to every plugin once more,
  from the last index down to \<open>0\<close>.
\<close>

theorem Stop_twice:
  assumes "fst (Stop a) = None"
  shows "calls (snd (Stop (snd (Stop a)))) =
           calls a @ map Close_Plugin_call (rev [0..<length (plugins a)])
             @ map Close_Plugin_call (rev [0..<length (plugins a)])"
  by (simp add: Stop_calls)

text \<open>On \<open>two_plugins\<close> the first \<^verbatim>\<open>Stop\<close> returns nil, and each plugin is released twice.\<close>

theorem Stop_twice_witness:
  "fst (Stop (NewAgent 5 two_plugins [])) = None
   \<and> calls (snd (Stop (snd (Stop (NewAgent 5 two_plugins []))))) =
       [Close_Plugin_call 1, Close_Plugin_call 0, Close_Plugin_call 1, Close_Plugin_call 0]"
proof -
  have 1: "fst (Stop (NewAgent 5 two_plugins [])) = None"
    by (simp add: two_plugins_def run_defs)
  have len: "length two_plugins = 2"
    by (simp add: two_plugins_def)
  from Stop_twice [OF 1] 1 show ?thesis
    by (simp add: NewAgent_def len numeral_2_eq_2)
qed

subsection \<open>The errors \<^verbatim>\<open>Start\<close> returns and the errors it drops\<close>

text \<open>
  C8 says that no error of the teardown run on a failed \<^verbatim>\<open>AfterInit\<close> is dropped. On
  \<open>late_failure\<close> the \<^verbatim>\<open>AfterInit\<close> of \<open>p1\<close> fails and \<^verbatim>\<open>Stop\<close> runs; in it the release
  of \<open>p1\<close> fails with \<open>busy\<close>. \<^verbatim>\<open>Start\<close> returns the error of the \<^verbatim>\<open>AfterInit\<close> alone, and
  no entry of the log above the debug level carries the failure of the release.
\<close>

theorem Start_drops_teardown_error_counterexample:
  "fst (Start None (NewAgent 5 late_failure [])) =
     Some (Errorf_logAfterErrorFmt ''p1'' ''late'' 1)
   \<and> release_failures Plugin_Close 3 late_failure
       (world_after_AfterInit late_failure (world_after_Init late_failure [])) =
       [(''p1'', ''busy'')]
   \<and> filter (\<lambda>e. fst e \<noteq> Debug) (Logger (snd (Start None (NewAgent 5 late_failure [])))) =
       [(Info, Starting_the_agent), (Info, logSuccessFmt ''p0'' 1),
        (Info, logSuccessFmt ''p1'' 1), (Info, logSuccessFmt ''p2'' 1),
        (Info, logAfterSuccessFmt ''p0'' 1), (Error, logAfterErrorFmt ''p1'' ''late'' 1),
        (Info, logAfterSkippedFmt ''p2''), (Info, Stopping_agent),
        (Info, Agent_Init_took 3), (Info, Agent_AfterInit_took 2)]"
  by (simp add: late_failure_def Plugin_Close_def numeral_3_eq_3 run_defs)

text \<open>
  C8, as the code has it. When the \<^verbatim>\<open>select\<close> receives the goroutine's signal,
  \<^verbatim>\<open>Start\<close> returns what the goroutine delivered, unchanged. When every \<^verbatim>\<open>Init\<close> passed
  and the \<^verbatim>\<open>AfterInit\<close> of plugin \<open>k\<close> is the first to fail, that is the error built from
  \<^verbatim>\<open>logAfterErrorFmt\<close> for plugin \<open>k\<close>, whatever the releases of the teardown return:
  \<^verbatim>\<open>handleAfterInit\<close> drops the result of \<^verbatim>\<open>agent.Stop()\<close>.
\<close>

theorem Start_returns_pipeline_error:
  "fst (Start None a) = fst (pipeline (log Info Starting_the_agent a))
   \<and> (first_Init_error (plugins a) (world a) = None \<longrightarrow>
      first_AfterInit_error (plugins a) (world_after_Init (plugins a) (world a)) = Some k \<longrightarrow>
      (\<exists>d. fst (Start None a) =
         Some (Errorf_logAfterErrorFmt (PluginName (plugins a ! k))
                 (AfterInit_error_text (plugins a) (world_after_Init (plugins a) (world a))) d)))"
  using Start_None_phase2_failure(2) [of a k] by (simp add: Start_None_result)

text \<open>
  On \<open>late_failure\<close>, where a release of the teardown fails, what \<^verbatim>\<open>Start\<close> returns is
  the error of the \<^verbatim>\<open>AfterInit\<close> of \<open>p1\<close>.
\<close>

theorem Start_returns_pipeline_error_witness:
  "first_Init_error late_failure [] = None
   \<and> first_AfterInit_error late_failure (world_after_Init late_failure []) = Some 1
   \<and> release_failures Plugin_Close 3 late_failure
       (world_after_AfterInit late_failure (world_after_Init late_failure [])) \<noteq> []
   \<and> (\<exists>d. fst (Start None (NewAgent 5 late_failure [])) =
         Some (Errorf_logAfterErrorFmt ''p1'' ''late'' d))
   \<and> fst (Start None (NewAgent 5 late_failure [])) =
       fst (pipeline (log Info Starting_the_agent (NewAgent 5 late_failure [])))"
proof -
  have 1: "first_Init_error (plugins (NewAgent 5 late_failure []))
             (world (NewAgent 5 late_failure [])) = None"
    by (simp add: NewAgent_def late_failure_def named_def acquire_def)
  have 2: "first_AfterInit_error (plugins (NewAgent 5 late_failure []))
             (world_after_Init (plugins (NewAgent 5 late_failure []))
                (world (NewAgent 5 late_failure []))) = Some 1"
    by (simp add: NewAgent_def late_failure_def named_def acquire_def failing_def)
  have 3: "release_failures Plugin_Close 3 late_failure
       (world_after_AfterInit late_failure (world_after_Init late_failure [])) \<noteq> []"
    by (simp add: late_failure_def Plugin_Close_def named_def acquire_def failing_def
        give_back_def numeral_3_eq_3)
  have 4: "(PluginName (plugins (NewAgent 5 late_failure []) ! 1)) = ''p1''"
    "AfterInit_error_text (plugins (NewAgent 5 late_failure []))
        (world_after_Init (plugins (NewAgent 5 late_failure []))
           (world (NewAgent 5 late_failure []))) = ''late''"
    by (simp_all add: NewAgent_def late_failure_def named_def acquire_def failing_def)
  from Start_returns_pipeline_error [of "NewAgent 5 late_failure []" 1] 1 2
  have a: "fst (Start None (NewAgent 5 late_failure [])) =
       fst (pipeline (log Info Starting_the_agent (NewAgent 5 late_failure [])))"
    and b: "\<exists>d. fst (Start None (NewAgent 5 late_failure [])) =
         Some (Errorf_logAfterErrorFmt ''p1'' ''late'' d)"
    unfolding 4 by blast+
  from 1 2 have "first_Init_error late_failure [] = None"
    and "first_AfterInit_error late_failure (world_after_Init late_failure []) = Some 1"
    by (simp_all add: NewAgent_def)
  with a b 3 show ?thesis by blast
qed

subsection \<open>The two ways of releasing\<close>




end
